theory Spec2Isabelle
  imports Complex_Main "HOL-Library.AList"
begin

unbundle bit_operations_syntax

section \<open>Python values\<close>

text \<open>
  The scalars a query content carries (the request schemas deliver \<open>str\<close>,
  \<open>Optional[int]\<close> and \<open>Optional[str]\<close> fields). A \<open>string\<close> is a list of code points
  below 256: one \<open>char\<close> is one Python character in the range U+0000..U+00FF.
\<close>

datatype pyval = PNone | PBool bool | PInt int | PStr string

text \<open>
  What a cache entry holds: a scalar, or the dictionary
  \<open>{'seen_at': datetime.now().isoformat(), 'query_id': query_id}\<close> that
  \<open>mark_as_seen\<close> stores. The text \<open>isoformat()\<close> renders is kept as the instant it
  renders.
\<close>

datatype payload = Scalar pyval | Seen_record int string

abbreviation py_none :: payload where
  "py_none \<equiv> Scalar PNone"

text \<open>Python's truth value of an object, as \<open>if cached:\<close> tests it.\<close>

fun truthy :: "payload \<Rightarrow> bool" where
  "truthy (Scalar PNone) = False"
| "truthy (Scalar (PBool b)) = b"
| "truthy (Scalar (PInt i)) = (i \<noteq> 0)"
| "truthy (Scalar (PStr s)) = (s \<noteq> [])"
| "truthy (Seen_record t q) = True"

section \<open>Time\<close>

text \<open>
  A naive \<open>datetime\<close> is the number of microseconds since \<open>datetime.min\<close>
  (0001-01-01T00:00:00); \<open>datetime.max\<close> is 9999-12-31T23:59:59.999999, the last
  microsecond of day 3652059. Every \<open>datetime.now()\<close> of the source is one explicit
  argument of the model, in the order the source reads the clock.
\<close>

type_synonym datetime = int

definition datetime_max :: datetime where
  "datetime_max = 3652059 * 86400 * 1000000 - 1"

text \<open>
  \<open>timedelta(seconds=n)\<close> for an integer \<open>n\<close>: the microseconds of the difference;
  OverflowError (\<open>None\<close>) when the normalised day count leaves \<open>\<plusminus>999999999\<close>.
\<close>

definition timedelta_seconds :: "int \<Rightarrow> int option" where
  "timedelta_seconds n =
     (if - 999999999 \<le> n div 86400 \<and> n div 86400 \<le> 999999999
      then Some (n * 1000000) else None)"

text \<open>\<open>datetime + timedelta\<close>: OverflowError (\<open>None\<close>) when the result leaves the range.\<close>

definition datetime_add :: "datetime \<Rightarrow> int \<Rightarrow> datetime option" where
  "datetime_add t d =
     (if 0 \<le> t + d \<and> t + d \<le> datetime_max then Some (t + d) else None)"

section \<open>CacheService\<close>

record entry =
  e_value :: payload
  created_at :: datetime
  expires_at :: datetime
  hits :: int

text \<open>
  \<open>self.cache\<close> is a Python dictionary, which keeps its keys in insertion order: an
  association list with \<open>AList.update\<close> for \<open>d[k] = v\<close> (in place for a present key, at
  the end for a new one) and \<open>AList.delete\<close> for \<open>del d[k]\<close>.
\<close>

type_synonym cache_dict = "(string \<times> entry) list"

record cache_service =
  cache :: cache_dict
  ttl :: int
  max_size :: int

text \<open>
  \<open>CacheService(ttl, max_size)\<close>: a missing or zero argument takes the value of the
  settings (\<open>ttl or settings.CACHE_TTL\<close>), which are 3600 and 1000.
\<close>

definition CACHE_TTL :: int where
  "CACHE_TTL = 3600"

definition MAX_CACHE_SIZE :: int where
  "MAX_CACHE_SIZE = 1000"

definition or_default :: "int option \<Rightarrow> int \<Rightarrow> int" where
  "or_default x d = (case x of None \<Rightarrow> d | Some v \<Rightarrow> if v = 0 then d else v)"

definition new_cache_service :: "int option \<Rightarrow> int option \<Rightarrow> cache_service" where
  "new_cache_service t m =
     \<lparr>cache = [], ttl = or_default t CACHE_TTL, max_size = or_default m MAX_CACHE_SIZE\<rparr>"

text \<open>
  \<open>min(self.cache.keys(), key=lambda k: self.cache[k]['created_at'])\<close>: the first key,
  in iteration order, whose \<open>created_at\<close> no other key undercuts.
\<close>

fun min_key :: "string \<Rightarrow> datetime \<Rightarrow> cache_dict \<Rightarrow> string" where
  "min_key best t [] = best"
| "min_key best t ((k, e) # kvs) =
     (if created_at e < t then min_key k (created_at e) kvs else min_key best t kvs)"

definition evict_oldest :: "cache_dict \<Rightarrow> cache_dict" where
  "evict_oldest c =
     (case c of
        [] \<Rightarrow> []
      | (k, e) # kvs \<Rightarrow> AList.delete (min_key k (created_at e) kvs) c)"

text \<open>
  \<open>set\<close> reads the clock twice: \<open>now_exp\<close> for \<open>expires_at\<close>, then \<open>now_cre\<close> for
  \<open>created_at\<close>. An OverflowError of the date arithmetic is caught by the
  \<open>except Exception\<close> and gives \<open>False\<close>, after the eviction has been done.
\<close>

definition set_c ::
  "cache_service \<Rightarrow> string \<Rightarrow> payload \<Rightarrow> int option \<Rightarrow> datetime \<Rightarrow> datetime
     \<Rightarrow> bool \<times> cache_service" where
  "set_c s key v t now_exp now_cre =
     (let c1 = (if int (length (cache s)) \<ge> max_size s
                then evict_oldest (cache s) else cache s)
      in case Option.bind (timedelta_seconds (or_default t (ttl s))) (datetime_add now_exp) of
           None \<Rightarrow> (False, s\<lparr>cache := c1\<rparr>)
         | Some ex \<Rightarrow>
             (True, s\<lparr>cache := AList.update key
                 \<lparr>e_value = v, created_at = now_cre, expires_at = ex, hits = 0\<rparr> c1\<rparr>))"

text \<open>\<open>get\<close> reads the clock once, and only when the key is in the dictionary.\<close>

definition get_c :: "cache_service \<Rightarrow> string \<Rightarrow> datetime \<Rightarrow> payload \<times> cache_service" where
  "get_c s key now =
     (case map_of (cache s) key of
        None \<Rightarrow> (py_none, s)
      | Some e \<Rightarrow>
          if now > expires_at e
          then (py_none, s\<lparr>cache := AList.delete key (cache s)\<rparr>)
          else (e_value e, s\<lparr>cache := AList.update key (e\<lparr>hits := hits e + 1\<rparr>) (cache s)\<rparr>))"

definition exists_c :: "cache_service \<Rightarrow> string \<Rightarrow> datetime \<Rightarrow> bool \<times> cache_service" where
  "exists_c s key now = (let (v, s') = get_c s key now in (v \<noteq> py_none, s'))"

definition delete_c :: "cache_service \<Rightarrow> string \<Rightarrow> bool \<times> cache_service" where
  "delete_c s key =
     (if key \<in> set (map fst (cache s))
      then (True, s\<lparr>cache := AList.delete key (cache s)\<rparr>)
      else (False, s))"

section \<open>Persistence\<close>

text \<open>
  A file under \<open>data/cache\<close> holds the pickle of a cache dictionary, or bytes that
  \<open>pickle.load\<close> rejects. \<open>pickle\<close> keeps the dictionary as it is, order included.
\<close>

datatype blob = Pickle cache_dict | Garbage

type_synonym disk = "string \<Rightarrow> blob option"

text \<open>What the operating system does with the write: \<open>open\<close> or \<open>pickle.dump\<close> may raise.\<close>

datatype io = Io_ok | Open_fails | Dump_fails

definition save_to_disk :: "cache_service \<Rightarrow> disk \<Rightarrow> string \<Rightarrow> io \<Rightarrow> bool \<times> disk" where
  "save_to_disk s fs filename w =
     (case w of
        Io_ok \<Rightarrow> (True, fs(filename \<mapsto> Pickle (cache s)))
      | Open_fails \<Rightarrow> (False, fs)
      | Dump_fails \<Rightarrow> (False, fs(filename \<mapsto> Garbage)))"

text \<open>
  \<open>[k for k, v in self.cache.items() if datetime.now() > v['expires_at']]\<close>: the
  clock is read once for every entry, \<open>clk i\<close> for the entry at position \<open>i\<close>.
\<close>

fun expired_keys :: "(nat \<Rightarrow> datetime) \<Rightarrow> cache_dict \<Rightarrow> string list" where
  "expired_keys clk [] = []"
| "expired_keys clk ((k, v) # kvs) =
     (if clk 0 > expires_at v then [k] else []) @ expired_keys (\<lambda>i. clk (Suc i)) kvs"

definition load_from_disk ::
  "cache_service \<Rightarrow> disk \<Rightarrow> string \<Rightarrow> (nat \<Rightarrow> datetime) \<Rightarrow> bool \<times> cache_service" where
  "load_from_disk s fs filename clk =
     (case fs filename of
        None \<Rightarrow> (False, s)
      | Some Garbage \<Rightarrow> (False, s)
      | Some (Pickle c) \<Rightarrow>
          (True, s\<lparr>cache := fold AList.delete (expired_keys clk c) c\<rparr>))"

section \<open>Strings, JSON\<close>

text \<open>\<open>str.lower()\<close> on the code points below 256.\<close>

definition lower_char :: "char \<Rightarrow> char" where
  "lower_char c =
     (let n = (of_char c :: nat)
      in if (65 \<le> n \<and> n \<le> 90) \<or> (192 \<le> n \<and> n \<le> 222 \<and> n \<noteq> 215)
         then char_of (n + 32) else c)"

definition lower :: "string \<Rightarrow> string" where
  "lower s = map lower_char s"

text \<open>\<open>str.isspace()\<close> on one code point below 256, and \<open>str.strip()\<close>.\<close>

definition is_space :: "char \<Rightarrow> bool" where
  "is_space c =
     (let n = (of_char c :: nat)
      in (9 \<le> n \<and> n \<le> 13) \<or> (28 \<le> n \<and> n \<le> 32) \<or> n = 133 \<or> n = 160)"

definition strip :: "string \<Rightarrow> string" where
  "strip s = rev (dropWhile is_space (rev (dropWhile is_space s)))"

definition digit_char :: "nat \<Rightarrow> char" where
  "digit_char n = ''0123456789abcdef'' ! n"

function dec_nat :: "nat \<Rightarrow> string" where
  "dec_nat n = (if n < 10 then [digit_char n] else dec_nat (n div 10) @ [digit_char (n mod 10)])"
  by pat_completeness auto
termination
  by (relation "measure id") auto

declare dec_nat.simps [simp del]

definition dec_int :: "int \<Rightarrow> string" where
  "dec_int i = (if i < 0 then CHR ''-'' # dec_nat (nat (- i)) else dec_nat (nat i))"

text \<open>\<open>str(v)\<close>.\<close>

fun py_str :: "pyval \<Rightarrow> string" where
  "py_str PNone = ''None''"
| "py_str (PBool b) = (if b then ''True'' else ''False'')"
| "py_str (PInt i) = dec_int i"
| "py_str (PStr s) = s"

text \<open>
  \<open>json.dumps\<close> with its defaults (\<open>ensure_ascii\<close>, separators \<open>', '\<close> and \<open>': '\<close>):
  a character outside \<open>' '..'~'\<close>, the quote and the backslash are escaped.
\<close>

definition json_escape_char :: "char \<Rightarrow> string" where
  "json_escape_char c =
     (let n = (of_char c :: nat)
      in if n = 34 then [CHR 0x5C, CHR 0x22]
         else if n = 92 then [CHR 0x5C, CHR 0x5C]
         else if n = 10 then [CHR 0x5C, CHR ''n'']
         else if n = 13 then [CHR 0x5C, CHR ''r'']
         else if n = 9 then [CHR 0x5C, CHR ''t'']
         else if n = 8 then [CHR 0x5C, CHR ''b'']
         else if n = 12 then [CHR 0x5C, CHR ''f'']
         else if n < 32 \<or> 126 < n
           then [CHR 0x5C, CHR ''u'', CHR ''0'', CHR ''0'', digit_char (n div 16), digit_char (n mod 16)]
         else [c])"

definition json_str :: "string \<Rightarrow> string" where
  "json_str s = CHR 0x22 # concat (map json_escape_char s) @ [CHR 0x22]"

fun json_val :: "pyval \<Rightarrow> string" where
  "json_val PNone = ''null''"
| "json_val (PBool b) = (if b then ''true'' else ''false'')"
| "json_val (PInt i) = dec_int i"
| "json_val (PStr s) = json_str s"

text \<open>\<open>sort_keys=True\<close>: the items by key, keys compared code point by code point.\<close>

fun str_less :: "string \<Rightarrow> string \<Rightarrow> bool" where
  "str_less [] [] = False"
| "str_less [] (y # ys) = True"
| "str_less (x # xs) [] = False"
| "str_less (x # xs) (y # ys) =
     ((of_char x :: nat) < of_char y \<or> (x = y \<and> str_less xs ys))"

fun insert_item :: "string \<times> pyval \<Rightarrow> (string \<times> pyval) list \<Rightarrow> (string \<times> pyval) list" where
  "insert_item kv [] = [kv]"
| "insert_item kv (kv' # rest) =
     (if str_less (fst kv) (fst kv') then kv # kv' # rest else kv' # insert_item kv rest)"

definition sorted_items :: "(string \<times> pyval) list \<Rightarrow> (string \<times> pyval) list" where
  "sorted_items kvs = foldr insert_item kvs []"

fun join_items :: "string list \<Rightarrow> string" where
  "join_items [] = []"
| "join_items [x] = x"
| "join_items (x # y # ys) = x @ '', '' @ join_items (y # ys)"

definition json_dumps :: "(string \<times> pyval) list \<Rightarrow> string" where
  "json_dumps kvs =
     ''{'' @ join_items (map (\<lambda>(k, v). json_str k @ '': '' @ json_val v) (sorted_items kvs)) @ ''}''"

text \<open>\<open>str.encode()\<close>: UTF-8, two bytes for a code point from 128 to 255.\<close>

definition encode_char :: "char \<Rightarrow> nat list" where
  "encode_char c =
     (let n = (of_char c :: nat) in if n < 128 then [n] else [192 + n div 64, 128 + n mod 64])"

definition encode :: "string \<Rightarrow> nat list" where
  "encode s = concat (map encode_char s)"

section \<open>SHA-256\<close>

text \<open>
  \<open>hashlib.sha256(...).hexdigest()\<close>, as FIPS 180-4 defines it. A 32-bit word is a
  natural number below \<open>2 ^ 32\<close>, with the wrap-around of the addition written out.
\<close>

definition add32 :: "nat \<Rightarrow> nat \<Rightarrow> nat" where
  "add32 x y = (x + y) mod 4294967296"

definition rotr :: "nat \<Rightarrow> nat \<Rightarrow> nat" where
  "rotr n x = x div 2 ^ n + (x mod 2 ^ n) * 2 ^ (32 - n)"

definition not32 :: "nat \<Rightarrow> nat" where
  "not32 x = 4294967295 - x"

text \<open>The choice and the majority function of the round, bit by bit.\<close>

definition choice32 :: "nat \<Rightarrow> nat \<Rightarrow> nat \<Rightarrow> nat" where
  "choice32 e f g = (e AND f) XOR (not32 e AND g)"

definition majority32 :: "nat \<Rightarrow> nat \<Rightarrow> nat \<Rightarrow> nat" where
  "majority32 a b c = (a AND b) XOR (a AND c) XOR (b AND c)"

definition bsig0 :: "nat \<Rightarrow> nat" where
  "bsig0 x = rotr 2 x XOR rotr 13 x XOR rotr 22 x"

definition bsig1 :: "nat \<Rightarrow> nat" where
  "bsig1 x = rotr 6 x XOR rotr 11 x XOR rotr 25 x"

definition ssig0 :: "nat \<Rightarrow> nat" where
  "ssig0 x = rotr 7 x XOR rotr 18 x XOR x div 2 ^ 3"

definition ssig1 :: "nat \<Rightarrow> nat" where
  "ssig1 x = rotr 17 x XOR rotr 19 x XOR x div 2 ^ 10"

text \<open>
  The round constants (the first 32 bits of the fractional parts of the cube roots of
  the first 64 primes) and the initial hash value (of the square roots of the first 8
  primes), written in decimal.
\<close>

definition K256 :: "nat list" where
  "K256 =
    [1116352408, 1899447441, 3049323471, 3921009573,
     961987163, 1508970993, 2453635748, 2870763221,
     3624381080, 310598401, 607225278, 1426881987,
     1925078388, 2162078206, 2614888103, 3248222580,
     3835390401, 4022224774, 264347078, 604807628,
     770255983, 1249150122, 1555081692, 1996064986,
     2554220882, 2821834349, 2952996808, 3210313671,
     3336571891, 3584528711, 113926993, 338241895,
     666307205, 773529912, 1294757372, 1396182291,
     1695183700, 1986661051, 2177026350, 2456956037,
     2730485921, 2820302411, 3259730800, 3345764771,
     3516065817, 3600352804, 4094571909, 275423344,
     430227734, 506948616, 659060556, 883997877,
     958139571, 1322822218, 1537002063, 1747873779,
     1955562222, 2024104815, 2227730452, 2361852424,
     2428436474, 2756734187, 3204031479, 3329325298]"

definition H256 :: "nat list" where
  "H256 =
    [1779033703, 3144134277, 1013904242, 2773480762,
     1359893119, 2600822924, 528734635, 1541459225]"

text \<open>One round on the working variables \<open>a..h\<close>, held as \<open>v ! 0 .. v ! 7\<close>.\<close>

definition next_vars :: "nat list \<Rightarrow> nat \<Rightarrow> nat \<Rightarrow> nat list" where
  "next_vars v t1 t2 =
     [add32 t1 t2, v ! 0, v ! 1, v ! 2, add32 (v ! 3) t1, v ! 4, v ! 5, v ! 6]"

definition round256 :: "nat list \<Rightarrow> nat \<Rightarrow> nat \<Rightarrow> nat list" where
  "round256 v k w =
     next_vars v
       (add32 (add32 (add32 (add32 (v ! 7) (bsig1 (v ! 4))) (choice32 (v ! 4) (v ! 5) (v ! 6))) k) w)
       (add32 (bsig0 (v ! 0)) (majority32 (v ! 0) (v ! 1) (v ! 2)))"

text \<open>
  The 64 rounds of one block, one for each constant. \<open>win\<close> holds the sixteen schedule
  words from the current one on: a round uses the first and appends the word sixteen
  places later.
\<close>

fun rounds :: "nat list \<Rightarrow> nat list \<Rightarrow> nat list \<Rightarrow> nat list" where
  "rounds [] win v = v"
| "rounds (k # ks) [] v = v"
| "rounds (k # ks) (w # ws) v =
     rounds ks (ws @ [add32 (add32 (add32 (ssig1 (ws ! 13)) (ws ! 8)) (ssig0 (ws ! 0))) w])
       (round256 v k w)"

definition compress :: "nat list \<Rightarrow> nat list \<Rightarrow> nat list" where
  "compress h block = map2 add32 h (rounds K256 block h)"

fun be32 :: "nat list \<Rightarrow> nat list" where
  "be32 (b0 # b1 # b2 # b3 # bs) = (((b0 * 256 + b1) * 256 + b2) * 256 + b3) # be32 bs"
| "be32 bs = []"

fun blocks :: "nat list \<Rightarrow> nat list \<Rightarrow> nat list" where
  "blocks h [] = h"
| "blocks h (w # ws) = blocks (compress h (take 16 (w # ws))) (drop 16 (w # ws))"

definition be_bytes8 :: "nat \<Rightarrow> nat list" where
  "be_bytes8 n = map (\<lambda>i. (n div 256 ^ i) mod 256) [7, 6, 5, 4, 3, 2, 1, 0]"

definition pad :: "nat list \<Rightarrow> nat list" where
  "pad m =
     m @ [128] @ replicate ((119 - length m mod 64) mod 64) 0 @ be_bytes8 (8 * length m)"

definition hex32 :: "nat \<Rightarrow> string" where
  "hex32 w = map (\<lambda>i. digit_char ((w div 16 ^ i) mod 16)) [7, 6, 5, 4, 3, 2, 1, 0]"

definition sha256_hexdigest :: "nat list \<Rightarrow> string" where
  "sha256_hexdigest m = concat (map hex32 (blocks H256 (be32 (pad m))))"

text \<open>The length of a list, counted in a way that evaluates to a numeral.\<close>

fun count_from :: "nat \<Rightarrow> 'a list \<Rightarrow> nat" where
  "count_from n [] = n"
| "count_from n (x # xs) = count_from (n + 1) xs"

section \<open>DeduplicationService\<close>

text \<open>A query content: a dictionary from field names to scalars.\<close>

type_synonym content = "string \<Rightarrow> pyval option"

definition dict_get :: "content \<Rightarrow> string \<Rightarrow> pyval \<Rightarrow> pyval" where
  "dict_get c k d = (case c k of None \<Rightarrow> d | Some v \<Rightarrow> v)"

text \<open>The dictionary \<open>normalized\<close> of \<open>generate_query_id\<close>, in the order it is written.\<close>

definition normalized :: "content \<Rightarrow> (string \<times> pyval) list" where
  "normalized c =
     [(''symptoms'', PStr (strip (lower (py_str (dict_get c ''symptoms'' (PStr '''')))))),
      (''age'', dict_get c ''age'' PNone),
      (''gender'', dict_get c ''gender'' PNone),
      (''language'', dict_get c ''language'' (PStr ''english''))]"

definition content_string :: "content \<Rightarrow> string" where
  "content_string c = json_dumps (normalized c)"

definition generate_query_id :: "content \<Rightarrow> string" where
  "generate_query_id c = sha256_hexdigest (encode (content_string c))"

text \<open>
  The service object, with the module-level \<open>cache_service\<close> its methods work on.
\<close>

record dedup_service =
  seen_hashes :: "(string \<times> datetime) list"
  similarity_threshold :: real
  cache_service :: cache_service

definition new_dedup_service :: "cache_service \<Rightarrow> dedup_service" where
  "new_dedup_service cs = \<lparr>seen_hashes = [], similarity_threshold = 9 / 10, cache_service = cs\<rparr>"

definition cache_key :: "string \<Rightarrow> string" where
  "cache_key query_id = ''query_seen_'' @ query_id"

definition is_duplicate :: "dedup_service \<Rightarrow> string \<Rightarrow> datetime \<Rightarrow> bool \<times> dedup_service" where
  "is_duplicate d query_id now =
     (let (cached, cs) = get_c (cache_service d) (cache_key query_id) now;
          d' = d\<lparr>cache_service := cs\<rparr>
      in if truthy cached then (True, d')
         else if query_id \<in> set (map fst (seen_hashes d')) then (True, d')
         else (False, d'))"

text \<open>
  \<open>mark_as_seen\<close> reads the clock four times: for \<open>seen_at\<close>, twice inside \<open>set\<close>, and
  for the entry of \<open>seen_hashes\<close>. The result of \<open>set\<close> is not looked at.
\<close>

definition mark_as_seen ::
  "dedup_service \<Rightarrow> string \<Rightarrow> int \<Rightarrow> datetime \<Rightarrow> datetime \<Rightarrow> datetime \<Rightarrow> datetime
     \<Rightarrow> dedup_service" where
  "mark_as_seen d query_id t now_seen now_exp now_cre now_mem =
     (let (ok, cs) = set_c (cache_service d) (cache_key query_id)
                       (Seen_record now_seen query_id) (Some t) now_exp now_cre
      in d\<lparr>cache_service := cs,
            seen_hashes := AList.update query_id now_mem (seen_hashes d)\<rparr>)"

definition get_or_create_query_id ::
  "dedup_service \<Rightarrow> content \<Rightarrow> datetime \<Rightarrow> datetime \<Rightarrow> datetime \<Rightarrow> datetime \<Rightarrow> datetime
     \<Rightarrow> (string \<times> bool) \<times> dedup_service" where
  "get_or_create_query_id d c now_chk now_seen now_exp now_cre now_mem =
     (let query_id = generate_query_id c;
          (dup, d1) = is_duplicate d query_id now_chk;
          d2 = (if \<not> dup then mark_as_seen d1 query_id 86400 now_seen now_exp now_cre now_mem
                else d1)
      in ((query_id, \<not> dup), d2))"

text \<open>\<open>str.split()\<close>: the maximal runs of characters that are not white space.\<close>

fun split_acc :: "string \<Rightarrow> string \<Rightarrow> string list" where
  "split_acc w [] = (if w = [] then [] else [w])"
| "split_acc w (c # cs) =
     (if is_space c then (if w = [] then [] else [w]) @ split_acc [] cs
      else split_acc (w @ [c]) cs)"

definition split :: "string \<Rightarrow> string list" where
  "split s = split_acc [] s"

text \<open>
  \<open>calculate_text_similarity\<close>; the quotient of the two lengths is taken exactly.
\<close>

definition calculate_text_similarity :: "string \<Rightarrow> string \<Rightarrow> real" where
  "calculate_text_similarity text1 text2 =
     (let text1_set = set (split (lower text1)); text2_set = set (split (lower text2))
      in if text1_set = {} \<or> text2_set = {} then 0
         else real (card (text1_set \<inter> text2_set)) / real (card (text1_set \<union> text2_set)))"

text \<open>
  \<open>find_similar_queries\<close>: the loop over \<open>self.seen_hashes.items()\<close>, with the clock
  reading \<open>clk i\<close> for the \<open>get\<close> of round \<open>i\<close>. The similarity is the placeholder
  \<open>0.0\<close> of the source.
\<close>

fun scan_seen ::
  "(nat \<Rightarrow> datetime) \<Rightarrow> real \<Rightarrow> (string \<times> datetime) list \<Rightarrow> cache_service
     \<Rightarrow> string list \<times> cache_service" where
  "scan_seen clk threshold [] cs = ([], cs)"
| "scan_seen clk threshold ((query_id, timestamp) # rest) cs =
     (let (cached, cs1) = get_c cs (cache_key query_id) (clk 0);
          similarity = (0 :: real);
          hit = (if truthy cached \<and> similarity \<ge> threshold then [query_id] else []);
          (more, cs2) = scan_seen (\<lambda>i. clk (Suc i)) threshold rest cs1
      in (hit @ more, cs2))"

definition find_similar_queries ::
  "dedup_service \<Rightarrow> string \<Rightarrow> real \<Rightarrow> (nat \<Rightarrow> datetime) \<Rightarrow> string list \<times> dedup_service" where
  "find_similar_queries d symptoms threshold clk =
     (let (similar_queries, cs) = scan_seen clk threshold (seen_hashes d) (cache_service d)
      in (similar_queries, d\<lparr>cache_service := cs\<rparr>))"

section \<open>Notions of the claims\<close>

text \<open>
  The entry a successful \<open>set(key, value, ttl)\<close> writes: \<open>te\<close> and \<open>tc\<close> are its two
  clock readings, the time to live is in seconds and the dates in microseconds.
\<close>

definition new_entry :: "cache_service \<Rightarrow> payload \<Rightarrow> int option \<Rightarrow> datetime \<Rightarrow> datetime \<Rightarrow> entry" where
  "new_entry s v t te tc =
     \<lparr>e_value = v, created_at = tc, expires_at = te + or_default t (ttl s) * 1000000, hits = 0\<rparr>"

text \<open>
  \<open>(m, em)\<close> is the oldest entry of \<open>c\<close>, and the first of the oldest in insertion
  order; \<open>xs\<close> are the entries before it and \<open>ys\<close> those after it.
\<close>

definition first_oldest :: "cache_dict \<Rightarrow> cache_dict \<Rightarrow> string \<Rightarrow> entry \<Rightarrow> cache_dict \<Rightarrow> bool" where
  "first_oldest c xs m em ys \<longleftrightarrow>
     c = xs @ (m, em) # ys
     \<and> (\<forall>(k', e') \<in> set xs. created_at em < created_at e')
     \<and> (\<forall>(k', e') \<in> set ys. created_at em \<le> created_at e')"

text \<open>
  The entries that are not expired when \<open>load_from_disk\<close> reads the clock for them.
\<close>

fun kept_entries :: "(nat \<Rightarrow> datetime) \<Rightarrow> cache_dict \<Rightarrow> cache_dict" where
  "kept_entries clk [] = []"
| "kept_entries clk ((k, v) # kvs) =
     (if clk 0 > expires_at v then [] else [(k, v)]) @ kept_entries (\<lambda>i. clk (Suc i)) kvs"

section \<open>Example states\<close>

text \<open>An entry that expired at 100 and was never looked at again, alone in a cache.\<close>

definition stale_entry :: entry where
  "stale_entry = \<lparr>e_value = Scalar (PStr ''v''), created_at = 0, expires_at = 100, hits = 0\<rparr>"

definition stale_service :: cache_service where
  "stale_service = \<lparr>cache = [(''k'', stale_entry)], ttl = 3600, max_size = 1000\<rparr>"

text \<open>The cache after \<open>set("k", "v", ttl=1)\<close> at second 5 on a new service.\<close>

definition one_entry :: entry where
  "one_entry = \<lparr>e_value = Scalar (PStr ''v''), created_at = 5000000, expires_at = 6000000, hits = 0\<rparr>"

definition one_service :: cache_service where
  "one_service = \<lparr>cache = [(''k'', one_entry)], ttl = 3600, max_size = 1000\<rparr>"

text \<open>Full caches of two entries, \<open>max_size = 2\<close>: both expired, and both live.\<close>

definition two_stale_service :: cache_service where
  "two_stale_service =
     \<lparr>cache = [(''k1'', stale_entry), (''k2'', stale_entry\<lparr>created_at := 1\<rparr>)],
      ttl = 3600, max_size = 2\<rparr>"

definition two_live_service :: cache_service where
  "two_live_service =
     \<lparr>cache = [(''k1'', one_entry), (''k2'', one_entry\<lparr>created_at := 5000001\<rparr>)],
      ttl = 3600, max_size = 2\<rparr>"

text \<open>
  An empty cache of \<open>max_size = 2\<close>, and its states after \<open>set\<close> of the keys
  \<open>a\<close>, \<open>b\<close> and \<open>c\<close> at the times 10, 20 and 30.
\<close>

definition empty_two :: cache_service where
  "empty_two = \<lparr>cache = [], ttl = 3600, max_size = 2\<rparr>"

definition after_a :: cache_service where
  "after_a = empty_two\<lparr>cache := [(''a'', new_entry empty_two (Scalar (PInt 1)) None 10 10)]\<rparr>"

definition after_b :: cache_service where
  "after_b = empty_two\<lparr>cache := [(''a'', new_entry empty_two (Scalar (PInt 1)) None 10 10),
                                   (''b'', new_entry empty_two (Scalar (PInt 2)) None 20 20)]\<rparr>"

definition after_c :: cache_service where
  "after_c = empty_two\<lparr>cache := [(''b'', new_entry empty_two (Scalar (PInt 2)) None 20 20),
                                   (''c'', new_entry empty_two (Scalar (PInt 3)) None 30 30)]\<rparr>"

text \<open>A cache with an expired and a live entry.\<close>

definition mixed_service :: cache_service where
  "mixed_service =
     \<lparr>cache = [(''old'', stale_entry), (''k'', one_entry)], ttl = 3600, max_size = 1000\<rparr>"

text \<open>
  A new deduplication service on a new cache, and its state after the first
  \<open>get_or_create_query_id({"symptoms": "fever headache"})\<close>, every clock reading 0.
\<close>

definition fever_content :: content where
  "fever_content = [''symptoms'' \<mapsto> PStr ''fever headache'']"

definition fever_id :: string where
  "fever_id = generate_query_id fever_content"

definition fresh_dedup :: dedup_service where
  "fresh_dedup = new_dedup_service (new_cache_service None None)"

definition seen_entry :: entry where
  "seen_entry = \<lparr>e_value = Seen_record 0 fever_id, created_at = 0,
                  expires_at = 86400000000, hits = 0\<rparr>"

definition seen_dedup :: dedup_service where
  "seen_dedup =
     \<lparr>seen_hashes = [(fever_id, 0)], similarity_threshold = 9 / 10,
      cache_service = \<lparr>cache = [(cache_key fever_id, seen_entry)], ttl = 3600, max_size = 1000\<rparr>\<rparr>"

text \<open>The four fields \<open>generate_query_id\<close> reads.\<close>

definition query_fields :: "string set" where
  "query_fields = {''symptoms'', ''age'', ''gender'', ''language''}"

text \<open>
  The two contents of the specification's example; the first with the language in
  lower case; and a content that differs from the second in the case of and the white
  space around \<open>symptoms\<close> and has no \<open>language\<close>.
\<close>

definition upper_content :: content where
  "upper_content =
     [''symptoms'' \<mapsto> PStr ''Fever, Headache'', ''age'' \<mapsto> PInt 30,
      ''language'' \<mapsto> PStr ''English'']"

definition lower_content :: content where
  "lower_content =
     [''symptoms'' \<mapsto> PStr ''fever, headache'', ''age'' \<mapsto> PInt 30,
      ''language'' \<mapsto> PStr ''english'']"

definition mixed_content :: content where
  "mixed_content =
     [''symptoms'' \<mapsto> PStr ''Fever, Headache'', ''age'' \<mapsto> PInt 30,
      ''language'' \<mapsto> PStr ''english'']"

definition padded_content :: content where
  "padded_content =
     [''symptoms'' \<mapsto> PStr ''  Fever, Headache '', ''age'' \<mapsto> PInt 30]"

text \<open>Two contents that differ in the case of \<open>gender\<close> only.\<close>

definition gender_upper_content :: content where
  "gender_upper_content = [''symptoms'' \<mapsto> PStr ''fever'', ''gender'' \<mapsto> PStr ''M'']"

definition gender_lower_content :: content where
  "gender_lower_content = [''symptoms'' \<mapsto> PStr ''fever'', ''gender'' \<mapsto> PStr ''m'']"





section \<open>Properties of the cache\<close>

lemma map_of_None_iff_keys: "map_of c k = None \<longleftrightarrow> k \<notin> set (map fst c)"
  by (simp add: map_of_eq_None_iff)

lemma map_of_Some_keys: "map_of c k = Some e \<Longrightarrow> k \<in> set (map fst c)"
  using map_of_None_iff_keys [of c k] by auto

text \<open>The keys of the dictionary stay distinct under \<open>get\<close> and \<open>delete\<close>.\<close>

lemma distinct_get_c:
  "distinct (map fst (cache s)) \<Longrightarrow> distinct (map fst (cache (snd (get_c s key now))))"
  by (simp add: get_c_def distinct_update distinct_delete split: option.splits)

lemma distinct_delete_c:
  "distinct (map fst (cache s)) \<Longrightarrow> distinct (map fst (cache (snd (delete_c s key))))"
  by (simp add: delete_c_def distinct_delete)

text \<open>
  C10. For a key whose entry is still in the dictionary but expired
  (\<open>now > expires_at\<close>), \<open>delete\<close> returns True and removes the entry (and nothing
  else), while \<open>get\<close> and \<open>exists\<close> on the same state report the key as absent; the
  result of \<open>delete\<close> is the raw presence of the key, whatever the expiry.
\<close>

theorem delete_ignores_expiry:
  assumes "map_of (cache s) key = Some e" and "now > expires_at e"
  shows "fst (delete_c s key) = True
       \<and> snd (delete_c s key) = s\<lparr>cache := AList.delete key (cache s)\<rparr>
       \<and> map_of (cache (snd (delete_c s key))) key = None
       \<and> fst (get_c s key now) = py_none
       \<and> fst (exists_c s key now) = False
       \<and> (\<forall>s' k. fst (delete_c s' k) = (k \<in> set (map fst (cache s'))))"
proof -
  from assms(1) have present: "key \<in> set (map fst (cache s))"
    by (rule map_of_Some_keys)
  have absent: "fst (get_c s key now) = py_none"
    using assms by (simp add: get_c_def)
  have "fst (exists_c s key now) = False"
    using absent by (simp add: exists_c_def case_prod_beta)
  moreover have "\<forall>s' k. fst (delete_c s' k) = (k \<in> set (map fst (cache s')))"
    by (simp add: delete_c_def)
  ultimately show ?thesis
    using present absent by (simp add: delete_c_def delete_conv')
qed

theorem delete_ignores_expiry_witness:
  "map_of (cache stale_service) ''k'' = Some stale_entry
   \<and> expires_at stale_entry < 101
   \<and> fst (delete_c stale_service ''k'') = True
   \<and> cache (snd (delete_c stale_service ''k'')) = []
   \<and> fst (get_c stale_service ''k'' 101) = py_none
   \<and> fst (exists_c stale_service ''k'' 101) = False"
proof -
  have p: "map_of (cache stale_service) ''k'' = Some stale_entry"
    by (simp add: stale_service_def)
  have q: "expires_at stale_entry < 101"
    by (simp add: stale_entry_def)
  show ?thesis
    using delete_ignores_expiry [OF p q] p q by (simp add: stale_service_def)
qed

section \<open>Reading the cache\<close>

lemma set_c_stores:
  assumes "set_c s0 key v t te tc = (True, s)"
  shows "map_of (cache s) key = Some (new_entry s0 v t te tc)"
  using assms
  by (auto simp: set_c_def Let_def update_conv' datetime_add_def timedelta_seconds_def new_entry_def
      split: option.splits Option.bind_splits if_splits)

text \<open>
  C5. For a key stored by \<open>set\<close>: a \<open>get\<close> while \<open>now \<le> expires_at\<close> returns the stored
  value, adds exactly 1 to the \<open>hits\<close> of the entry and leaves \<open>expires_at\<close> (and every
  other entry) as it was; a \<open>get\<close> when \<open>now > expires_at\<close> returns None and removes the
  entry; a \<open>get\<close> of a key that is not in the dictionary returns None and changes
  nothing. A successful \<open>set\<close> leaves the key with the value, no hits and the expiry
  \<open>now + ttl\<close>.
\<close>

theorem get_hit_expiry_miss:
  "(map_of (cache s) key = Some e \<and> now \<le> expires_at e \<longrightarrow>
      fst (get_c s key now) = e_value e
      \<and> snd (get_c s key now) = s\<lparr>cache := AList.update key (e\<lparr>hits := hits e + 1\<rparr>) (cache s)\<rparr>
      \<and> map_of (cache (snd (get_c s key now))) key = Some (e\<lparr>hits := hits e + 1\<rparr>)
      \<and> expires_at (e\<lparr>hits := hits e + 1\<rparr>) = expires_at e)
   \<and> (map_of (cache s) key = Some e \<and> now > expires_at e \<longrightarrow>
      get_c s key now = (py_none, s\<lparr>cache := AList.delete key (cache s)\<rparr>)
      \<and> map_of (cache (snd (get_c s key now))) key = None)
   \<and> (map_of (cache s) key = None \<longrightarrow> get_c s key now = (py_none, s))
   \<and> (\<forall>k'. k' \<noteq> key \<longrightarrow> map_of (cache (snd (get_c s key now))) k' = map_of (cache s) k')
   \<and> (set_c s0 key v t te tc = (True, s) \<longrightarrow>
        map_of (cache s) key = Some (new_entry s0 v t te tc)
        \<and> e_value (new_entry s0 v t te tc) = v \<and> hits (new_entry s0 v t te tc) = 0
        \<and> expires_at (new_entry s0 v t te tc) = te + or_default t (ttl s0) * 1000000)"
proof -
  have others: "\<forall>k'. k' \<noteq> key \<longrightarrow> map_of (cache (snd (get_c s key now))) k' = map_of (cache s) k'"
    by (simp add: get_c_def update_conv' delete_conv' split: option.splits)
  have stored: "set_c s0 key v t te tc = (True, s) \<longrightarrow>
        map_of (cache s) key = Some (new_entry s0 v t te tc)
        \<and> e_value (new_entry s0 v t te tc) = v \<and> hits (new_entry s0 v t te tc) = 0
        \<and> expires_at (new_entry s0 v t te tc) = te + or_default t (ttl s0) * 1000000"
    using set_c_stores [of s0 key v t te tc s] by (simp add: new_entry_def)
  show ?thesis
    using others stored by (simp add: get_c_def update_conv' delete_conv')
qed

lemma set_c_fresh:
  "set_c (new_cache_service None None) ''k'' (Scalar (PStr ''v'')) (Some 1) 5000000 5000000
     = (True, one_service)"
  by (simp add: set_c_def new_cache_service_def or_default_def CACHE_TTL_def MAX_CACHE_SIZE_def
      timedelta_seconds_def datetime_add_def datetime_max_def one_service_def one_entry_def)

theorem get_hit_expiry_miss_witness:
  "set_c (new_cache_service None None) ''k'' (Scalar (PStr ''v'')) (Some 1) 5000000 5000000
     = (True, one_service)
   \<and> map_of (cache one_service) ''k'' = Some one_entry
   \<and> 5000000 \<le> expires_at one_entry
   \<and> fst (get_c one_service ''k'' 5000000) = Scalar (PStr ''v'')
   \<and> map_of (cache (snd (get_c one_service ''k'' 5000000))) ''k''
       = Some (one_entry\<lparr>hits := 1\<rparr>)
   \<and> expires_at one_entry < 6000001
   \<and> get_c one_service ''k'' 6000001 = (py_none, one_service\<lparr>cache := []\<rparr>)
   \<and> map_of (cache one_service) ''q'' = None
   \<and> get_c one_service ''q'' 5000000 = (py_none, one_service)"
proof -
  have p: "map_of (cache one_service) ''k'' = Some one_entry"
    and q: "map_of (cache one_service) ''q'' = None"
    by (simp_all add: one_service_def)
  have r: "5000000 \<le> expires_at one_entry" "expires_at one_entry < 6000001"
    and h: "hits one_entry = 0"
    by (simp_all add: one_entry_def)
  have d: "AList.delete ''k'' (cache one_service) = []"
    by (simp add: one_service_def)
  show ?thesis
    using get_hit_expiry_miss [of one_service "''k''" one_entry 5000000]
      get_hit_expiry_miss [of one_service "''k''" one_entry 6000001]
      get_hit_expiry_miss [of one_service "''q''" one_entry 5000000]
      p q r h d set_c_fresh
    by (simp add: one_entry_def one_service_def)
qed

section \<open>Writing the cache, eviction\<close>

lemma first_oldest_here:
  "\<forall>(k', e') \<in> set rest. created_at e \<le> created_at e' \<Longrightarrow> first_oldest ((k, e) # rest) [] k e rest"
  by (simp add: first_oldest_def)

lemma first_oldest_later:
  "first_oldest rest xs m em ys \<Longrightarrow> created_at em < created_at e
     \<Longrightarrow> first_oldest ((k, e) # rest) ((k, e) # xs) m em ys"
  by (simp add: first_oldest_def)

lemma min_key_split:
  "(min_key b t kvs = b \<and> (\<forall>(k', e') \<in> set kvs. t \<le> created_at e'))
   \<or> (\<exists>xs em ys. first_oldest kvs xs (min_key b t kvs) em ys \<and> created_at em < t)"
proof (induction kvs arbitrary: b t)
  case Nil
  then show ?case by simp
next
  case (Cons p rest)
  obtain k e where p: "p = (k, e)" by (cases p)
  show ?case
  proof (cases "created_at e < t")
    case True
    then have m: "min_key b t (p # rest) = min_key k (created_at e) rest"
      using p by simp
    from Cons.IH [of k "created_at e"] show ?thesis
    proof (elim disjE conjE exE)
      assume "min_key k (created_at e) rest = k"
        and "\<forall>(k', e') \<in> set rest. created_at e \<le> created_at e'"
      then have "first_oldest (p # rest) [] (min_key b t (p # rest)) e rest"
        using m p first_oldest_here by simp
      then show ?thesis using True by blast
    next
      fix xs em ys
      assume "first_oldest rest xs (min_key k (created_at e) rest) em ys"
        and lt: "created_at em < created_at e"
      then have "first_oldest (p # rest) (p # xs) (min_key b t (p # rest)) em ys"
        using m p first_oldest_later by simp
      moreover have "created_at em < t" using lt True by simp
      ultimately show ?thesis by blast
    qed
  next
    case False
    then have m: "min_key b t (p # rest) = min_key b t rest"
      using p by simp
    from Cons.IH [of b t] show ?thesis
    proof (elim disjE conjE exE)
      assume "min_key b t rest = b" and "\<forall>(k', e') \<in> set rest. t \<le> created_at e'"
      then show ?thesis using False m p by simp
    next
      fix xs em ys
      assume f: "first_oldest rest xs (min_key b t rest) em ys" and lt: "created_at em < t"
      have "created_at em < created_at e" using lt False by simp
      then have "first_oldest (p # rest) (p # xs) (min_key b t (p # rest)) em ys"
        using f m p first_oldest_later by simp
      then show ?thesis using lt by blast
    qed
  qed
qed

lemma delete_split:
  assumes "distinct (map fst (xs @ (m, em) # ys))"
  shows "AList.delete m (xs @ (m, em) # ys) = xs @ ys"
proof -
  have "m \<notin> fst ` set xs" and "m \<notin> fst ` set ys"
    using assms by auto
  then have "\<forall>x \<in> set xs. (case x of (k', _) \<Rightarrow> m \<noteq> k')"
    and "\<forall>x \<in> set ys. (case x of (k', _) \<Rightarrow> m \<noteq> k')"
    by force+
  then have "filter (\<lambda>(k', _). m \<noteq> k') xs = xs" and "filter (\<lambda>(k', _). m \<noteq> k') ys = ys"
    by (simp_all add: filter_id_conv)
  then show ?thesis by (simp add: AList.delete_eq)
qed

lemma evict_oldest_split:
  assumes "c \<noteq> []" and "distinct (map fst c)"
  shows "\<exists>xs m em ys. first_oldest c xs m em ys \<and> evict_oldest c = xs @ ys"
proof -
  obtain k e kvs where c: "c = (k, e) # kvs" using assms(1) by (cases c) auto
  let ?m = "min_key k (created_at e) kvs"
  have ev: "evict_oldest c = AList.delete ?m c"
    using c by (simp add: evict_oldest_def)
  have "\<exists>xs em ys. first_oldest c xs ?m em ys"
    using min_key_split [of k "created_at e" kvs]
  proof (elim disjE conjE exE)
    assume "?m = k" and "\<forall>(k', e') \<in> set kvs. created_at e \<le> created_at e'"
    then have "first_oldest c [] ?m e kvs" using c first_oldest_here by simp
    then show ?thesis by blast
  next
    fix xs em ys
    assume "first_oldest kvs xs ?m em ys" and "created_at em < created_at e"
    then have "first_oldest c ((k, e) # xs) ?m em ys"
      using c first_oldest_later by simp
    then show ?thesis by blast
  qed
  then obtain xs em ys where f: "first_oldest c xs ?m em ys" by blast
  then have cc: "c = xs @ (?m, em) # ys" by (simp add: first_oldest_def)
  then have "distinct (map fst (xs @ (?m, em) # ys))" using assms(2) by simp
  then have "AList.delete ?m (xs @ (?m, em) # ys) = xs @ ys" by (rule delete_split)
  then have "evict_oldest c = xs @ ys" using ev cc by simp
  then show ?thesis using f by blast
qed

lemma set_c_True:
  assumes "set_c s key v t te tc = (True, s')"
  shows "s' = s\<lparr>cache := AList.update key (new_entry s v t te tc)
                 (if int (length (cache s)) \<ge> max_size s then evict_oldest (cache s) else cache s)\<rparr>"
  using assms
  by (auto simp: set_c_def Let_def new_entry_def datetime_add_def timedelta_seconds_def
      split: option.splits Option.bind_splits if_splits)

text \<open>
  \<open>set\<close> returns True exactly when the time to live is a representable
  \<open>timedelta\<close> and the expiry date a representable \<open>datetime\<close>.
\<close>

lemma set_c_success_iff:
  "fst (set_c s key v t te tc) \<longleftrightarrow>
     - 999999999 \<le> or_default t (ttl s) div 86400
     \<and> or_default t (ttl s) div 86400 \<le> 999999999
     \<and> 0 \<le> te + or_default t (ttl s) * 1000000
     \<and> te + or_default t (ttl s) * 1000000 \<le> datetime_max"
  by (auto simp: set_c_def Let_def timedelta_seconds_def datetime_add_def
      split: option.splits Option.bind_splits if_splits)

lemma update_new_key: "key \<notin> set (map fst c) \<Longrightarrow> AList.update key e c = c @ [(key, e)]"
  by (induction c) auto

lemma distinct_evict_oldest: "distinct (map fst c) \<Longrightarrow> distinct (map fst (evict_oldest c))"
  by (cases c) (auto simp: evict_oldest_def distinct_delete simp del: AList.delete_simps split: prod.splits)

lemma first_oldest_keys: "first_oldest c xs m em ys \<Longrightarrow> set (map fst (xs @ ys)) \<subseteq> set (map fst c)"
  by (auto simp: first_oldest_def)

lemma set_c_no_eviction:
  assumes "set_c s key v t te tc = (True, s')"
    and "key \<notin> set (map fst (cache s))"
    and "int (length (cache s)) < max_size s \<or> cache s = []"
  shows "cache s' = cache s @ [(key, new_entry s v t te tc)]"
proof -
  have "(if int (length (cache s)) \<ge> max_size s then evict_oldest (cache s) else cache s) = cache s"
    using assms(3) by (auto simp: evict_oldest_def)
  then show ?thesis
    using set_c_True [OF assms(1)] update_new_key [OF assms(2)] by simp
qed

lemma set_c_eviction:
  assumes "set_c s key v t te tc = (True, s')"
    and "distinct (map fst (cache s))"
    and "key \<notin> set (map fst (cache s))"
    and "int (length (cache s)) \<ge> max_size s" and "cache s \<noteq> []"
  shows "\<exists>xs m em ys. first_oldest (cache s) xs m em ys
           \<and> cache s' = xs @ ys @ [(key, new_entry s v t te tc)]"
proof -
  obtain xs m em ys where f: "first_oldest (cache s) xs m em ys"
    and ev: "evict_oldest (cache s) = xs @ ys"
    using evict_oldest_split [OF assms(5) assms(2)] by blast
  have "key \<notin> set (map fst (xs @ ys))"
    using first_oldest_keys [OF f] assms(3) by blast
  then have "AList.update key (new_entry s v t te tc) (xs @ ys) = (xs @ ys) @ [(key, new_entry s v t te tc)]"
    by (rule update_new_key)
  then have "cache s' = xs @ ys @ [(key, new_entry s v t te tc)]"
    using set_c_True [OF assms(1)] assms(4) ev by simp
  then show ?thesis using f by blast
qed

lemma set_c_overwrite:
  assumes "set_c s key v t te tc = (True, s')"
    and "int (length (cache s)) < max_size s"
  shows "cache s' = AList.update key (new_entry s v t te tc) (cache s)"
  using set_c_True [OF assms(1)] assms(2) by simp

lemma update_present_keys: "key \<in> set (map fst c) \<Longrightarrow> map fst (AList.update key e c) = map fst c"
  by (induction c) auto

lemma three_keys_max_two:
  assumes "distinct [k1, k2, k3]" and "b1 \<le> b2"
    and "set_c \<lparr>cache = [], ttl = d, max_size = 2\<rparr> k1 v1 t1 a1 b1 = (True, s1)"
    and "set_c s1 k2 v2 t2 a2 b2 = (True, s2)"
    and "set_c s2 k3 v3 t3 a3 b3 = (True, s3)"
  shows "map fst (cache s3) = [k2, k3]"
proof -
  let ?s0 = "\<lparr>cache = [], ttl = d, max_size = 2\<rparr>"
  have ne: "k1 \<noteq> k2" "k2 \<noteq> k1" "k1 \<noteq> k3" "k3 \<noteq> k1" "k2 \<noteq> k3" "k3 \<noteq> k2"
    using assms(1) by auto
  have s1: "s1 = ?s0\<lparr>cache := [(k1, new_entry ?s0 v1 t1 a1 b1)]\<rparr>"
    using set_c_True [OF assms(3)] by simp
  have s2: "s2 = s1\<lparr>cache := [(k1, new_entry ?s0 v1 t1 a1 b1), (k2, new_entry s1 v2 t2 a2 b2)]\<rparr>"
    using set_c_True [OF assms(4)] ne s1 by simp
  have "evict_oldest (cache s2) = [(k2, new_entry s1 v2 t2 a2 b2)]"
    using s2 ne assms(2) by (simp add: evict_oldest_def new_entry_def)
  then show ?thesis
    using set_c_True [OF assms(5)] ne s2 s1 by simp
qed

text \<open>
  C4 (as the code has it). For a cache whose keys are distinct and a call \<open>set\<close> whose
  expiry date is representable: the value is stored under the key, over any entry the
  key had, with no hits, \<open>created_at\<close> the second clock reading and \<open>expires_at\<close> the
  first clock reading plus the time to live in seconds, which is the argument when it is
  given and not zero and the default of the service otherwise. For a key that is not in
  the dictionary, an entry is evicted exactly when the dictionary, expired entries
  counted, already holds \<open>max_size\<close> entries or more and is not empty: then the one
  entry with the least \<open>created_at\<close>, the first of them in insertion order, is removed
  and the new entry is appended; otherwise the new entry is appended and nothing is
  removed. A \<open>set\<close> of a key that is in the dictionary while it holds fewer than
  \<open>max_size\<close> entries replaces that entry in place and changes no other. With
  \<open>max_size = 2\<close>, three distinct keys set in this order into an empty cache, the
  first created no later than the second, leave exactly the second and the third.
\<close>

theorem set_stores_and_evicts_oldest:
  assumes "distinct (map fst (cache s))"
    and "set_c s key v t te tc = (True, s')"
  shows "map_of (cache s') key = Some (new_entry s v t te tc)
       \<and> ttl s' = ttl s \<and> max_size s' = max_size s
       \<and> distinct (map fst (cache s'))
       \<and> (key \<notin> set (map fst (cache s))
            \<and> (int (length (cache s)) < max_size s \<or> cache s = [])
          \<longrightarrow> cache s' = cache s @ [(key, new_entry s v t te tc)])
       \<and> (key \<notin> set (map fst (cache s))
            \<and> int (length (cache s)) \<ge> max_size s \<and> cache s \<noteq> []
          \<longrightarrow> (\<exists>xs m em ys. first_oldest (cache s) xs m em ys
                 \<and> cache s' = xs @ ys @ [(key, new_entry s v t te tc)]))
       \<and> (key \<in> set (map fst (cache s)) \<and> int (length (cache s)) < max_size s
          \<longrightarrow> cache s' = AList.update key (new_entry s v t te tc) (cache s)
              \<and> map fst (cache s') = map fst (cache s)
              \<and> (\<forall>k'. k' \<noteq> key \<longrightarrow> map_of (cache s') k' = map_of (cache s) k'))
       \<and> (\<forall>d k1 k2 k3 v1 v2 v3 t1 t2 t3 a1 a2 a3 b1 b2 b3 s1 s2 s3.
            distinct [k1, k2, k3] \<and> b1 \<le> b2
            \<and> set_c \<lparr>cache = [], ttl = d, max_size = 2\<rparr> k1 v1 t1 a1 b1 = (True, s1)
            \<and> set_c s1 k2 v2 t2 a2 b2 = (True, s2)
            \<and> set_c s2 k3 v3 t3 a3 b3 = (True, s3)
          \<longrightarrow> map fst (cache s3) = [k2, k3])"
proof -
  note eq = set_c_True [OF assms(2)]
  have stored: "map_of (cache s') key = Some (new_entry s v t te tc)"
    using eq by (simp add: update_conv')
  have frame: "ttl s' = ttl s \<and> max_size s' = max_size s"
    using eq by simp
  have dist: "distinct (map fst (cache s'))"
    using eq assms(1) by (simp add: distinct_update distinct_evict_oldest)
  have fresh: "key \<notin> set (map fst (cache s))
            \<and> (int (length (cache s)) < max_size s \<or> cache s = [])
          \<longrightarrow> cache s' = cache s @ [(key, new_entry s v t te tc)]"
    using set_c_no_eviction [OF assms(2)] by blast
  have evict: "key \<notin> set (map fst (cache s))
            \<and> int (length (cache s)) \<ge> max_size s \<and> cache s \<noteq> []
          \<longrightarrow> (\<exists>xs m em ys. first_oldest (cache s) xs m em ys
                 \<and> cache s' = xs @ ys @ [(key, new_entry s v t te tc)])"
    using set_c_eviction [OF assms(2) assms(1)] by blast
  have over: "key \<in> set (map fst (cache s)) \<and> int (length (cache s)) < max_size s
          \<longrightarrow> cache s' = AList.update key (new_entry s v t te tc) (cache s)
              \<and> map fst (cache s') = map fst (cache s)
              \<and> (\<forall>k'. k' \<noteq> key \<longrightarrow> map_of (cache s') k' = map_of (cache s) k')"
    using set_c_overwrite [OF assms(2)] by (simp add: update_present_keys update_conv')
  have three: "\<forall>d k1 k2 k3 v1 v2 v3 t1 t2 t3 a1 a2 a3 b1 b2 b3 s1 s2 s3.
            distinct [k1, k2, k3] \<and> b1 \<le> b2
            \<and> set_c \<lparr>cache = [], ttl = d, max_size = 2\<rparr> k1 v1 t1 a1 b1 = (True, s1)
            \<and> set_c s1 k2 v2 t2 a2 b2 = (True, s2)
            \<and> set_c s2 k3 v3 t3 a3 b3 = (True, s3)
          \<longrightarrow> map fst (cache s3) = [k2, k3]"
    using three_keys_max_two by blast
  show ?thesis
    using stored frame dist fresh evict over three by blast
qed

lemmas time_defs = timedelta_seconds_def datetime_add_def datetime_max_def or_default_def

lemma set_k3_two_live:
  "set_c two_live_service ''k3'' (Scalar (PStr ''w'')) (Some 60) 5500000 5500000
     = (True, two_live_service\<lparr>cache :=
          [(''k2'', one_entry\<lparr>created_at := 5000001\<rparr>),
           (''k3'', new_entry two_live_service (Scalar (PStr ''w'')) (Some 60) 5500000 5500000)]\<rparr>)"
  by (simp add: set_c_def two_live_service_def one_entry_def evict_oldest_def new_entry_def time_defs)

lemma three_sets:
  "set_c empty_two ''a'' (Scalar (PInt 1)) None 10 10 = (True, after_a)"
  "set_c after_a ''b'' (Scalar (PInt 2)) None 20 20 = (True, after_b)"
  "set_c after_b ''c'' (Scalar (PInt 3)) None 30 30 = (True, after_c)"
  by (simp_all add: set_c_def empty_two_def after_a_def after_b_def after_c_def new_entry_def
      evict_oldest_def time_defs)

lemma set_k2_one:
  "set_c one_service ''k2'' (Scalar (PStr ''w'')) None 5500000 5500000
   = (True, one_service\<lparr>cache := [(''k'', one_entry),
        (''k2'', new_entry one_service (Scalar (PStr ''w'')) None 5500000 5500000)]\<rparr>)"
  by (simp add: set_c_def one_service_def new_entry_def time_defs)

lemma set_k_one:
  "set_c one_service ''k'' (Scalar (PStr ''w'')) (Some 60) 5500000 5500000
   = (True, one_service\<lparr>cache :=
        [(''k'', new_entry one_service (Scalar (PStr ''w'')) (Some 60) 5500000 5500000)]\<rparr>)"
  by (simp add: set_c_def one_service_def new_entry_def time_defs)

theorem set_stores_and_evicts_oldest_witness:
  "distinct (map fst (cache two_live_service))
   \<and> set_c two_live_service ''k3'' (Scalar (PStr ''w'')) (Some 60) 5500000 5500000
       = (True, two_live_service\<lparr>cache :=
            [(''k2'', one_entry\<lparr>created_at := 5000001\<rparr>),
             (''k3'', new_entry two_live_service (Scalar (PStr ''w'')) (Some 60) 5500000 5500000)]\<rparr>)
   \<and> ''k3'' \<notin> set (map fst (cache two_live_service))
   \<and> int (length (cache two_live_service)) \<ge> max_size two_live_service
   \<and> first_oldest (cache two_live_service) [] ''k1'' one_entry
        [(''k2'', one_entry\<lparr>created_at := 5000001\<rparr>)]
   \<and> expires_at (new_entry two_live_service (Scalar (PStr ''w'')) (Some 60) 5500000 5500000)
       = 5500000 + 60 * 1000000
   \<and> distinct (map fst (cache one_service))
   \<and> ''k2'' \<notin> set (map fst (cache one_service))
   \<and> int (length (cache one_service)) < max_size one_service
   \<and> set_c one_service ''k2'' (Scalar (PStr ''w'')) None 5500000 5500000
       = (True, one_service\<lparr>cache := cache one_service @
            [(''k2'', new_entry one_service (Scalar (PStr ''w'')) None 5500000 5500000)]\<rparr>)
   \<and> expires_at (new_entry one_service (Scalar (PStr ''w'')) None 5500000 5500000)
       = 5500000 + 3600 * 1000000
   \<and> ''k'' \<in> set (map fst (cache one_service))
   \<and> set_c one_service ''k'' (Scalar (PStr ''w'')) (Some 60) 5500000 5500000
       = (True, one_service\<lparr>cache :=
            [(''k'', new_entry one_service (Scalar (PStr ''w'')) (Some 60) 5500000 5500000)]\<rparr>)
   \<and> distinct [''a'', ''b'', ''c''] \<and> (10 :: int) \<le> 20
   \<and> set_c empty_two ''a'' (Scalar (PInt 1)) None 10 10 = (True, after_a)
   \<and> set_c after_a ''b'' (Scalar (PInt 2)) None 20 20 = (True, after_b)
   \<and> set_c after_b ''c'' (Scalar (PInt 3)) None 30 30 = (True, after_c)
   \<and> map fst (cache after_c) = [''b'', ''c'']"
proof -
  have d: "distinct (map fst (cache two_live_service))"
    and d1: "distinct (map fst (cache one_service))"
    by (simp_all add: two_live_service_def one_service_def)
  have f: "first_oldest (cache two_live_service) [] ''k1'' one_entry
        [(''k2'', one_entry\<lparr>created_at := 5000001\<rparr>)]"
    by (simp add: first_oldest_def two_live_service_def one_entry_def)
  have e: "expires_at (new_entry two_live_service (Scalar (PStr ''w'')) (Some 60) 5500000 5500000)
       = 5500000 + 60 * 1000000"
    "expires_at (new_entry one_service (Scalar (PStr ''w'')) None 5500000 5500000)
       = 5500000 + 3600 * 1000000"
    by (simp_all add: new_entry_def or_default_def one_service_def)
  have n: "''k3'' \<notin> set (map fst (cache two_live_service))"
    "int (length (cache two_live_service)) \<ge> max_size two_live_service"
    "''k2'' \<notin> set (map fst (cache one_service))"
    "int (length (cache one_service)) < max_size one_service"
    "''k'' \<in> set (map fst (cache one_service))"
    by (simp_all add: two_live_service_def one_service_def)
  note T = set_stores_and_evicts_oldest [OF d set_k3_two_live]
  note U = set_stores_and_evicts_oldest [OF d1 set_k2_one]
  have "\<forall>d k1 k2 k3 v1 v2 v3 t1 t2 t3 a1 a2 a3 b1 b2 b3 s1 s2 s3.
            distinct [k1, k2, k3] \<and> b1 \<le> b2
            \<and> set_c \<lparr>cache = [], ttl = d, max_size = 2\<rparr> k1 v1 t1 a1 b1 = (True, s1)
            \<and> set_c s1 k2 v2 t2 a2 b2 = (True, s2)
            \<and> set_c s2 k3 v3 t3 a3 b3 = (True, s3)
          \<longrightarrow> map fst (cache s3) = [k2, k3]"
    using T by (elim conjE) assumption
  note R = this [rule_format, of "''a''" "''b''" "''c''" 10 20 3600 "Scalar (PInt 1)" None 10
      after_a "Scalar (PInt 2)" None 20 after_b "Scalar (PInt 3)" None 30 30 after_c]
  have three: "map fst (cache after_c) = [''b'', ''c'']"
    using three_sets by (intro R) (simp add: empty_two_def)
  have fresh: "cache (one_service\<lparr>cache := [(''k'', one_entry),
        (''k2'', new_entry one_service (Scalar (PStr ''w'')) None 5500000 5500000)]\<rparr>)
       = cache one_service @
          [(''k2'', new_entry one_service (Scalar (PStr ''w'')) None 5500000 5500000)]"
    using U n by (elim conjE) blast
  have eq: "set_c one_service ''k2'' (Scalar (PStr ''w'')) None 5500000 5500000
       = (True, one_service\<lparr>cache := cache one_service @
            [(''k2'', new_entry one_service (Scalar (PStr ''w'')) None 5500000 5500000)]\<rparr>)"
    using set_k2_one fresh by simp
  have ds: "distinct [''a'', ''b'', ''c''] \<and> (10 :: int) \<le> 20" by simp
  show ?thesis
    using d d1 f e n three eq set_k3_two_live set_k_one three_sets ds
    by (intro conjI) simp_all
qed

text \<open>
  C4 as stated fails. With \<open>max_size = 2\<close> and two entries that both expired at 100, a
  \<open>set\<close> of a third key at 1000 evicts the first, although no entry is live and one
  live entry would not exceed the maximum: \<open>len(self.cache)\<close> counts the expired
  entries that no \<open>get\<close> has removed yet. And \<open>set(key, value, ttl=0)\<close> expires at
  \<open>now\<close> plus the default 3600 seconds, not at \<open>now + 0\<close>.
\<close>

theorem set_counts_expired_counterexample:
  "length (filter (\<lambda>(k, e). \<not> 1000 > expires_at e) (cache two_stale_service)) = 0
   \<and> max_size two_stale_service = 2
   \<and> map fst (cache (snd (set_c two_stale_service ''k3'' (Scalar (PStr ''w'')) (Some 60) 1000 1000)))
       = [''k2'', ''k3'']
   \<and> map_of (cache (snd (set_c (new_cache_service None None) ''k'' (Scalar (PStr ''w'')) (Some 0) 1000 1000))) ''k''
       = Some \<lparr>e_value = Scalar (PStr ''w''), created_at = 1000,
               expires_at = 1000 + 3600 * 1000000, hits = 0\<rparr>"
  by (simp add: set_c_def two_stale_service_def stale_entry_def evict_oldest_def
      new_cache_service_def CACHE_TTL_def MAX_CACHE_SIZE_def time_defs)

text \<open>
  A \<open>set\<close> of a key that is in a full dictionary evicts all the same: the size test
  does not look at the key. Here \<open>k2\<close> is overwritten and \<open>k1\<close> is lost.
\<close>

lemma set_c_overwrite_at_capacity:
  "map fst (cache (snd (set_c two_live_service ''k2'' (Scalar (PStr ''w'')) (Some 60) 5500000 5500000)))
     = [''k2'']"
  by (simp add: set_c_def two_live_service_def one_entry_def evict_oldest_def time_defs)

section \<open>Persistence round trip\<close>

lemma expired_keys_subset: "set (expired_keys clk c) \<subseteq> set (map fst c)"
  by (induction clk c rule: expired_keys.induct) auto

lemma fold_delete_Cons:
  "k \<notin> set ks \<Longrightarrow> fold AList.delete ks ((k, v) # c) = (k, v) # fold AList.delete ks c"
  by (induction ks arbitrary: c) auto

lemma fold_delete_kept:
  "distinct (map fst c) \<Longrightarrow> fold AList.delete (expired_keys clk c) c = kept_entries clk c"
proof (induction c arbitrary: clk)
  case Nil
  then show ?case by simp
next
  case (Cons p rest)
  obtain k v where p: "p = (k, v)" by (cases p)
  have notin: "k \<notin> set (map fst rest)" and d: "distinct (map fst rest)"
    using Cons.prems p by auto
  have ih: "fold AList.delete (expired_keys (\<lambda>i. clk (Suc i)) rest) rest
            = kept_entries (\<lambda>i. clk (Suc i)) rest"
    using Cons.IH [OF d] .
  have nk: "k \<notin> set (expired_keys (\<lambda>i. clk (Suc i)) rest)"
    using notin expired_keys_subset by blast
  show ?case
  proof (cases "clk 0 > expires_at v")
    case True
    have "AList.delete k rest = rest" using notin by (simp add: delete_id)
    then show ?thesis using True p ih by simp
  next
    case False
    have "fold AList.delete (expired_keys (\<lambda>i. clk (Suc i)) rest) ((k, v) # rest)
          = (k, v) # fold AList.delete (expired_keys (\<lambda>i. clk (Suc i)) rest) rest"
      by (rule fold_delete_Cons [OF nk])
    then show ?thesis using False p ih by simp
  qed
qed

lemma kept_entries_keys: "set (map fst (kept_entries clk c)) \<subseteq> set (map fst c)"
  by (induction clk c rule: kept_entries.induct) auto

lemma kept_entries_nth:
  assumes "distinct (map fst c)" and "i < length c" and "c ! i = (k, e)"
  shows "map_of (kept_entries clk c) k = (if clk i > expires_at e then None else Some e)"
  using assms
proof (induction c arbitrary: clk i)
  case Nil
  then show ?case by simp
next
  case (Cons p rest)
  obtain k0 v0 where p: "p = (k0, v0)" by (cases p)
  have notin: "k0 \<notin> set (map fst rest)" and d: "distinct (map fst rest)"
    using Cons.prems(1) p by auto
  show ?case
  proof (cases i)
    case 0
    then have kv: "k = k0" "e = v0" using Cons.prems(3) p by auto
    have "k0 \<notin> set (map fst (kept_entries (\<lambda>i. clk (Suc i)) rest))"
      using notin kept_entries_keys by blast
    then have "map_of (kept_entries (\<lambda>i. clk (Suc i)) rest) k0 = None"
      by (simp add: map_of_None_iff_keys)
    then show ?thesis using 0 kv p by simp
  next
    case (Suc j)
    then have j: "j < length rest" "rest ! j = (k, e)" using Cons.prems(2,3) by auto
    then have "k \<in> set (map fst rest)"
      by (metis fst_conv length_map nth_map nth_mem)
    then have ne: "k \<noteq> k0" using notin by auto
    have "map_of (kept_entries (\<lambda>i. clk (Suc i)) rest) k
          = (if clk (Suc j) > expires_at e then None else Some e)"
      using Cons.IH [OF d j] .
    then show ?thesis using Suc p ne by simp
  qed
qed

text \<open>
  C6. After \<open>save_to_disk(name)\<close> on a cache and \<open>load_from_disk(name)\<close> on a fresh
  instance, the load succeeds; an entry that is not expired when the load reads the
  clock for it is in the loaded cache as it was saved, and \<open>get\<close> returns its value
  as long as it has not expired; an entry that is expired at that reading is not in
  the loaded cache, and \<open>get\<close> returns None for it: the load drops it at once.
\<close>

theorem save_load_round_trip:
  assumes "distinct (map fst (cache s))"
    and "save_to_disk s fs name Io_ok = (True, fs')"
    and "load_from_disk (new_cache_service None None) fs' name clk = (ok, s')"
    and "i < length (cache s)" and "cache s ! i = (k, e)"
  shows "ok
       \<and> (\<not> clk i > expires_at e \<longrightarrow>
            map_of (cache s') k = Some e
            \<and> (\<forall>now. now \<le> expires_at e \<longrightarrow> fst (get_c s' k now) = e_value e))
       \<and> (clk i > expires_at e \<longrightarrow>
            k \<notin> set (map fst (cache s'))
            \<and> (\<forall>now. fst (get_c s' k now) = py_none))"
proof -
  have fs': "fs' name = Some (Pickle (cache s))"
    using assms(2) by (auto simp: save_to_disk_def)
  then have ok: "ok" and c: "cache s' = fold AList.delete (expired_keys clk (cache s)) (cache s)"
    using assms(3) by (auto simp: load_from_disk_def)
  then have c': "cache s' = kept_entries clk (cache s)"
    using fold_delete_kept [OF assms(1)] by simp
  have m: "map_of (cache s') k = (if clk i > expires_at e then None else Some e)"
    using c' kept_entries_nth [OF assms(1) assms(4) assms(5)] by simp
  have live: "\<not> clk i > expires_at e \<longrightarrow>
            map_of (cache s') k = Some e
            \<and> (\<forall>now. now \<le> expires_at e \<longrightarrow> fst (get_c s' k now) = e_value e)"
    using m by (simp add: get_c_def)
  have dead: "clk i > expires_at e \<longrightarrow>
            k \<notin> set (map fst (cache s'))
            \<and> (\<forall>now. fst (get_c s' k now) = py_none)"
    using m map_of_None_iff_keys [of "cache s'" k] by (auto simp: get_c_def)
  show ?thesis using ok live dead by blast
qed

lemma save_mixed:
  "save_to_disk mixed_service Map.empty ''snap'' Io_ok
     = (True, [''snap'' \<mapsto> Pickle (cache mixed_service)])"
  by (simp add: save_to_disk_def)

lemma load_mixed:
  "load_from_disk (new_cache_service None None) [''snap'' \<mapsto> Pickle (cache mixed_service)]
     ''snap'' (\<lambda>i. 5000000)
     = (True, (new_cache_service None None)\<lparr>cache := [(''k'', one_entry)]\<rparr>)"
  by (simp add: load_from_disk_def mixed_service_def stale_entry_def one_entry_def)

theorem save_load_round_trip_witness:
  "distinct (map fst (cache mixed_service))
   \<and> save_to_disk mixed_service Map.empty ''snap'' Io_ok
       = (True, [''snap'' \<mapsto> Pickle (cache mixed_service)])
   \<and> load_from_disk (new_cache_service None None) [''snap'' \<mapsto> Pickle (cache mixed_service)]
       ''snap'' (\<lambda>i. 5000000)
       = (True, (new_cache_service None None)\<lparr>cache := [(''k'', one_entry)]\<rparr>)
   \<and> cache mixed_service ! 0 = (''old'', stale_entry) \<and> 5000000 > expires_at stale_entry
   \<and> cache mixed_service ! 1 = (''k'', one_entry) \<and> \<not> 5000000 > expires_at one_entry
   \<and> fst (get_c ((new_cache_service None None)\<lparr>cache := [(''k'', one_entry)]\<rparr>) ''k'' 5000000)
       = Scalar (PStr ''v'')
   \<and> fst (get_c ((new_cache_service None None)\<lparr>cache := [(''k'', one_entry)]\<rparr>) ''old'' 5000000)
       = py_none"
proof -
  have d: "distinct (map fst (cache mixed_service))"
    and l0: "0 < length (cache mixed_service)" and l1: "1 < length (cache mixed_service)"
    and n0: "cache mixed_service ! 0 = (''old'', stale_entry)"
    and n1: "cache mixed_service ! 1 = (''k'', one_entry)"
    by (simp_all add: mixed_service_def)
  have x: "5000000 > expires_at stale_entry" "\<not> 5000000 > expires_at one_entry"
    "5000000 \<le> expires_at one_entry" "e_value one_entry = Scalar (PStr ''v'')"
    by (simp_all add: stale_entry_def one_entry_def)
  show ?thesis
    using save_load_round_trip [OF d save_mixed load_mixed l0 n0]
      save_load_round_trip [OF d save_mixed load_mixed l1 n1]
      d n0 n1 x save_mixed load_mixed
    by simp
qed

section \<open>Deduplication\<close>

lemma is_duplicate_state:
  "snd (is_duplicate d q now) = d\<lparr>cache_service := snd (get_c (cache_service d) (cache_key q) now)\<rparr>"
  by (simp add: is_duplicate_def Let_def case_prod_beta)

lemma is_duplicate_seen_hashes:
  "q \<in> set (map fst (seen_hashes d)) \<Longrightarrow> fst (is_duplicate d q now) = True"
  by (simp add: is_duplicate_def Let_def case_prod_beta)

lemma mark_as_seen_seen_hashes:
  "seen_hashes (mark_as_seen d q t a b c m) = AList.update q m (seen_hashes d)"
  by (simp add: mark_as_seen_def case_prod_beta)

lemma update_has_key: "q \<in> set (map fst (AList.update q m al))"
  using dom_update [of q m al] by auto

lemma update_keeps_keys: "set (map fst al) \<subseteq> set (map fst (AList.update q m al))"
  using dom_update [of q m al] by auto

lemma get_or_create_new:
  assumes "\<not> fst (is_duplicate d (generate_query_id c) t1)"
  shows "get_or_create_query_id d c t1 t2 t3 t4 t5
         = ((generate_query_id c, True),
            mark_as_seen (snd (is_duplicate d (generate_query_id c) t1))
              (generate_query_id c) 86400 t2 t3 t4 t5)"
  using assms by (simp add: get_or_create_query_id_def Let_def case_prod_beta)

lemma get_or_create_dup:
  assumes "fst (is_duplicate d (generate_query_id c) t1)"
  shows "get_or_create_query_id d c t1 t2 t3 t4 t5
         = ((generate_query_id c, False), snd (is_duplicate d (generate_query_id c) t1))"
  using assms by (simp add: get_or_create_query_id_def Let_def case_prod_beta)

lemma get_or_create_id: "fst (fst (get_or_create_query_id d c t1 t2 t3 t4 t5)) = generate_query_id c"
  by (simp add: get_or_create_query_id_def Let_def case_prod_beta)

lemma get_or_create_is_new:
  "snd (fst (get_or_create_query_id d c t1 t2 t3 t4 t5))
   = (\<not> fst (is_duplicate d (generate_query_id c) t1))"
  by (simp add: get_or_create_query_id_def Let_def case_prod_beta)


lemma first_call:
  "get_or_create_query_id fresh_dedup fever_content 0 0 0 0 0 = ((fever_id, True), seen_dedup)"
  by (simp add: get_or_create_query_id_def is_duplicate_def get_c_def mark_as_seen_def set_c_def
      fresh_dedup_def new_dedup_service_def new_cache_service_def CACHE_TTL_def MAX_CACHE_SIZE_def
      time_defs seen_dedup_def seen_entry_def fever_id_def Let_def)



lemma late_call:
  "get_or_create_query_id seen_dedup fever_content
     86400000001 86400000001 86400000001 86400000001 86400000001
   = ((fever_id, False),
      seen_dedup\<lparr>cache_service := \<lparr>cache = [], ttl = 3600, max_size = 1000\<rparr>\<rparr>)"
  by (simp add: get_or_create_query_id_def is_duplicate_def get_c_def
      seen_dedup_def seen_entry_def fever_id_def Let_def)

text \<open>
  C1 as stated fails. A first call at time 0 marks the fingerprint seen, with a cache
  record that expires after 86400 seconds; the next call comes one microsecond after
  the expiry: it removes the expired record from the cache and still returns
  \<open>(id, False)\<close>, because the fingerprint is in \<open>seen_hashes\<close>.
\<close>

theorem seen_after_expiry_counterexample:
  "get_or_create_query_id fresh_dedup fever_content 0 0 0 0 0 = ((fever_id, True), seen_dedup)
   \<and> map_of (cache (cache_service seen_dedup)) (cache_key fever_id) = Some seen_entry
   \<and> expires_at seen_entry = 86400 * 1000000
   \<and> fst (get_or_create_query_id seen_dedup fever_content
            86400000001 86400000001 86400000001 86400000001 86400000001) = (fever_id, False)
   \<and> cache (cache_service (snd (get_or_create_query_id seen_dedup fever_content
            86400000001 86400000001 86400000001 86400000001 86400000001))) = []"
proof -
  have "map_of (cache (cache_service seen_dedup)) (cache_key fever_id) = Some seen_entry"
    and "expires_at seen_entry = 86400 * 1000000"
    by (simp_all add: seen_dedup_def seen_entry_def)
  then show ?thesis using first_call late_call by simp
qed

lemma is_duplicate_expired_record:
  assumes "map_of (cache (cache_service d)) (cache_key q) = Some e" and "now > expires_at e"
  shows "map_of (cache (cache_service (snd (is_duplicate d q now)))) (cache_key q) = None"
  using assms by (simp add: is_duplicate_state get_c_def delete_conv')

lemma find_similar_seen_hashes: "seen_hashes (snd (find_similar_queries d s th clk)) = seen_hashes d"
  by (simp add: find_similar_queries_def case_prod_beta)

lemma get_or_create_seen_hashes:
  "set (map fst (seen_hashes d))
   \<subseteq> set (map fst (seen_hashes (snd (get_or_create_query_id d c t1 t2 t3 t4 t5))))"
proof (cases "fst (is_duplicate d (generate_query_id c) t1)")
  case True
  then show ?thesis by (simp add: get_or_create_dup is_duplicate_state)
next
  case False
  then show ?thesis
    using update_keeps_keys [of "seen_hashes d" "generate_query_id c" t5]
    by (simp add: get_or_create_new mark_as_seen_seen_hashes is_duplicate_state del: set_map)
qed

text \<open>
  C1 (as the code has it). Once \<open>get_or_create_query_id(c)\<close> has returned
  \<open>(id, True)\<close>, the fingerprint is in \<open>seen_hashes\<close>; no call of
  \<open>get_or_create_query_id\<close> or \<open>find_similar_queries\<close> removes it; and in every state
  that has it there, \<open>get_or_create_query_id(c)\<close> returns \<open>(id, False)\<close> at any time,
  also after the time to live of the cache record has passed: the expiry only removes
  the cache record, at that next check. The status never goes back to unseen.
\<close>

theorem seen_stays_seen:
  assumes "get_or_create_query_id d c t1 t2 t3 t4 t5 = ((q, True), d1)"
  shows "q = generate_query_id c
       \<and> q \<in> set (map fst (seen_hashes d1))
       \<and> (\<forall>(d'::dedup_service) u1 u2 u3 u4 u5. q \<in> set (map fst (seen_hashes d')) \<longrightarrow>
            fst (get_or_create_query_id d' c u1 u2 u3 u4 u5) = (q, False)
            \<and> seen_hashes (snd (get_or_create_query_id d' c u1 u2 u3 u4 u5)) = seen_hashes d'
            \<and> (\<forall>e. map_of (cache (cache_service d')) (cache_key q) = Some e \<and> u1 > expires_at e
                 \<longrightarrow> map_of (cache (cache_service
                        (snd (get_or_create_query_id d' c u1 u2 u3 u4 u5)))) (cache_key q) = None))
       \<and> (\<forall>(d'::dedup_service) c' u1 u2 u3 u4 u5. q \<in> set (map fst (seen_hashes d')) \<longrightarrow>
            q \<in> set (map fst (seen_hashes (snd (get_or_create_query_id d' c' u1 u2 u3 u4 u5)))))
       \<and> (\<forall>(d'::dedup_service) s th clk. seen_hashes (snd (find_similar_queries d' s th clk)) = seen_hashes d')"
proof -
  have q: "q = generate_query_id c"
    using assms get_or_create_id [of d c t1 t2 t3 t4 t5] by simp
  have new: "\<not> fst (is_duplicate d (generate_query_id c) t1)"
    using assms get_or_create_is_new [of d c t1 t2 t3 t4 t5] by simp
  have "d1 = mark_as_seen (snd (is_duplicate d q t1)) q 86400 t2 t3 t4 t5"
    using assms get_or_create_new [OF new] q by simp
  then have in1: "q \<in> set (map fst (seen_hashes d1))"
    by (simp add: mark_as_seen_seen_hashes update_has_key del: set_map)
  have later: "\<forall>(d'::dedup_service) u1 u2 u3 u4 u5. q \<in> set (map fst (seen_hashes d')) \<longrightarrow>
            fst (get_or_create_query_id d' c u1 u2 u3 u4 u5) = (q, False)
            \<and> seen_hashes (snd (get_or_create_query_id d' c u1 u2 u3 u4 u5)) = seen_hashes d'
            \<and> (\<forall>e. map_of (cache (cache_service d')) (cache_key q) = Some e \<and> u1 > expires_at e
                 \<longrightarrow> map_of (cache (cache_service
                        (snd (get_or_create_query_id d' c u1 u2 u3 u4 u5)))) (cache_key q) = None)"
  proof (intro allI impI)
    fix d' :: dedup_service and u1 u2 u3 u4 u5 :: datetime
    assume "q \<in> set (map fst (seen_hashes d'))"
    then have dup: "fst (is_duplicate d' (generate_query_id c) u1)"
      using q is_duplicate_seen_hashes by simp
    have eq: "get_or_create_query_id d' c u1 u2 u3 u4 u5
              = ((q, False), snd (is_duplicate d' q u1))"
      using get_or_create_dup [OF dup] q by simp
    show "fst (get_or_create_query_id d' c u1 u2 u3 u4 u5) = (q, False)
            \<and> seen_hashes (snd (get_or_create_query_id d' c u1 u2 u3 u4 u5)) = seen_hashes d'
            \<and> (\<forall>e. map_of (cache (cache_service d')) (cache_key q) = Some e \<and> u1 > expires_at e
                 \<longrightarrow> map_of (cache (cache_service
                        (snd (get_or_create_query_id d' c u1 u2 u3 u4 u5)))) (cache_key q) = None)"
      using eq is_duplicate_expired_record [of d' q _ u1] by (simp add: is_duplicate_state)
  qed
  have grows: "\<forall>(d'::dedup_service) c' u1 u2 u3 u4 u5. q \<in> set (map fst (seen_hashes d')) \<longrightarrow>
            q \<in> set (map fst (seen_hashes (snd (get_or_create_query_id d' c' u1 u2 u3 u4 u5))))"
    using get_or_create_seen_hashes by blast
  show ?thesis
    using q in1 later grows find_similar_seen_hashes by blast
qed

theorem seen_stays_seen_witness:
  "get_or_create_query_id fresh_dedup fever_content 0 0 0 0 0 = ((fever_id, True), seen_dedup)
   \<and> fever_id \<in> set (map fst (seen_hashes seen_dedup))
   \<and> map_of (cache (cache_service seen_dedup)) (cache_key fever_id) = Some seen_entry
   \<and> 86400000001 > expires_at seen_entry
   \<and> fst (get_or_create_query_id seen_dedup fever_content
            86400000001 86400000001 86400000001 86400000001 86400000001) = (fever_id, False)
   \<and> map_of (cache (cache_service (snd (get_or_create_query_id seen_dedup fever_content
            86400000001 86400000001 86400000001 86400000001 86400000001)))) (cache_key fever_id) = None
   \<and> fever_id \<in> set (map fst (seen_hashes
        (snd (get_or_create_query_id seen_dedup upper_content 1 1 1 1 1))))
   \<and> seen_hashes (snd (find_similar_queries seen_dedup ''fever'' 0 (\<lambda>i. 1)))
       = seen_hashes seen_dedup"
proof -
  have m: "map_of (cache (cache_service seen_dedup)) (cache_key fever_id) = Some seen_entry"
    and x: "86400000001 > expires_at seen_entry"
    by (simp_all add: seen_dedup_def seen_entry_def)
  note T = seen_stays_seen [OF first_call]
  have i: "fever_id \<in> set (map fst (seen_hashes seen_dedup))"
    using T by blast
  have later: "fst (get_or_create_query_id seen_dedup fever_content
            86400000001 86400000001 86400000001 86400000001 86400000001) = (fever_id, False)
     \<and> map_of (cache (cache_service (snd (get_or_create_query_id seen_dedup fever_content
            86400000001 86400000001 86400000001 86400000001 86400000001)))) (cache_key fever_id) = None"
    using T i m x by blast
  have other: "fever_id \<in> set (map fst (seen_hashes
        (snd (get_or_create_query_id seen_dedup upper_content 1 1 1 1 1))))"
    using T i by blast
  have scan: "seen_hashes (snd (find_similar_queries seen_dedup ''fever'' 0 (\<lambda>i. 1)))
       = seen_hashes seen_dedup"
    using T by blast
  show ?thesis
    using first_call i m x later other scan by (intro conjI) simp_all
qed

lemma is_duplicate_live_record:
  assumes "map_of (cache (cache_service d)) (cache_key q) = Some e"
    and "now \<le> expires_at e" and "truthy (e_value e)"
  shows "is_duplicate d q now
         = (True, d\<lparr>cache_service := (cache_service d)\<lparr>cache :=
              AList.update (cache_key q) (e\<lparr>hits := hits e + 1\<rparr>) (cache (cache_service d))\<rparr>\<rparr>)"
  using assms by (simp add: is_duplicate_def get_c_def)

text \<open>
  C7 (as the code has it). For a content whose seen-record is in the cache and not
  expired, \<open>get_or_create_query_id\<close> returns \<open>(id, False)\<close> and changes one thing
  only: the \<open>get\<close> of the check adds 1 to the hits of the seen-record's entry. No key
  is added or removed, every other entry and \<open>seen_hashes\<close> stay as they were.
\<close>

theorem seen_lookup_counts_hit:
  assumes "map_of (cache (cache_service d)) (cache_key (generate_query_id c)) = Some e"
    and "now \<le> expires_at e" and "truthy (e_value e)"
  shows "get_or_create_query_id d c now t2 t3 t4 t5
         = ((generate_query_id c, False),
            d\<lparr>cache_service := (cache_service d)\<lparr>cache :=
               AList.update (cache_key (generate_query_id c)) (e\<lparr>hits := hits e + 1\<rparr>)
                 (cache (cache_service d))\<rparr>\<rparr>)
       \<and> seen_hashes (snd (get_or_create_query_id d c now t2 t3 t4 t5)) = seen_hashes d
       \<and> map fst (cache (cache_service (snd (get_or_create_query_id d c now t2 t3 t4 t5))))
           = map fst (cache (cache_service d))
       \<and> map_of (cache (cache_service (snd (get_or_create_query_id d c now t2 t3 t4 t5))))
            (cache_key (generate_query_id c)) = Some (e\<lparr>hits := hits e + 1\<rparr>)
       \<and> (\<forall>k. k \<noteq> cache_key (generate_query_id c) \<longrightarrow>
             map_of (cache (cache_service (snd (get_or_create_query_id d c now t2 t3 t4 t5)))) k
             = map_of (cache (cache_service d)) k)"
proof -
  let ?q = "generate_query_id c"
  note dup = is_duplicate_live_record [OF assms]
  have eq: "get_or_create_query_id d c now t2 t3 t4 t5
         = ((?q, False),
            d\<lparr>cache_service := (cache_service d)\<lparr>cache :=
               AList.update (cache_key ?q) (e\<lparr>hits := hits e + 1\<rparr>)
                 (cache (cache_service d))\<rparr>\<rparr>)"
    using get_or_create_dup [of d c now t2 t3 t4 t5] dup by simp
  have "cache_key ?q \<in> set (map fst (cache (cache_service d)))"
    using assms(1) by (rule map_of_Some_keys)
  then have keys: "map fst (AList.update (cache_key ?q) (e\<lparr>hits := hits e + 1\<rparr>)
                 (cache (cache_service d))) = map fst (cache (cache_service d))"
    by (rule update_present_keys)
  show ?thesis
    using eq keys by (simp add: update_conv')
qed

theorem seen_lookup_counts_hit_witness:
  "map_of (cache (cache_service seen_dedup)) (cache_key (generate_query_id fever_content))
     = Some seen_entry
   \<and> 1 \<le> expires_at seen_entry \<and> truthy (e_value seen_entry)
   \<and> get_or_create_query_id seen_dedup fever_content 1 1 1 1 1
       = ((fever_id, False),
          seen_dedup\<lparr>cache_service := (cache_service seen_dedup)\<lparr>cache :=
            [(cache_key fever_id, seen_entry\<lparr>hits := 1\<rparr>)]\<rparr>\<rparr>)"
proof -
  have m: "map_of (cache (cache_service seen_dedup)) (cache_key (generate_query_id fever_content))
     = Some seen_entry"
    by (simp add: seen_dedup_def fever_id_def)
  have x: "1 \<le> expires_at seen_entry" and t: "truthy (e_value seen_entry)"
    and h: "hits seen_entry = 0"
    by (simp_all add: seen_entry_def)
  have u: "AList.update (cache_key fever_id) (seen_entry\<lparr>hits := 1\<rparr>)
             (cache (cache_service seen_dedup)) = [(cache_key fever_id, seen_entry\<lparr>hits := 1\<rparr>)]"
    by (simp add: seen_dedup_def)
  show ?thesis
    using seen_lookup_counts_hit [OF m x t, of 1 1 1 1] m x t h u
    by (simp add: fever_id_def)
qed

text \<open>
  C7 as stated fails. The second call for a content that was just marked seen returns
  \<open>(id, False)\<close> and leaves the cache entry of the seen-record with one hit more: the
  state is not what it was.
\<close>

theorem seen_lookup_mutates_counterexample:
  "map_of (cache (cache_service seen_dedup)) (cache_key fever_id) = Some seen_entry
   \<and> 1 \<le> expires_at seen_entry
   \<and> hits seen_entry = 0
   \<and> fst (get_or_create_query_id seen_dedup fever_content 1 1 1 1 1) = (fever_id, False)
   \<and> map_of (cache (cache_service (snd (get_or_create_query_id seen_dedup fever_content 1 1 1 1 1))))
        (cache_key fever_id) = Some (seen_entry\<lparr>hits := 1\<rparr>)
   \<and> snd (get_or_create_query_id seen_dedup fever_content 1 1 1 1 1) \<noteq> seen_dedup"
proof -
  have c: "get_or_create_query_id seen_dedup fever_content 1 1 1 1 1
       = ((fever_id, False),
          seen_dedup\<lparr>cache_service := (cache_service seen_dedup)\<lparr>cache :=
            [(cache_key fever_id, seen_entry\<lparr>hits := 1\<rparr>)]\<rparr>\<rparr>)"
    by (simp add: get_or_create_query_id_def is_duplicate_def get_c_def
      seen_dedup_def seen_entry_def fever_id_def Let_def)
  have "seen_dedup\<lparr>cache_service := (cache_service seen_dedup)\<lparr>cache :=
            [(cache_key fever_id, seen_entry\<lparr>hits := 1\<rparr>)]\<rparr>\<rparr> \<noteq> seen_dedup"
    by (simp add: seen_dedup_def seen_entry_def)
  moreover have "map_of (cache (cache_service seen_dedup)) (cache_key fever_id) = Some seen_entry"
    and "1 \<le> expires_at seen_entry" and "hits seen_entry = 0"
    by (simp_all add: seen_dedup_def seen_entry_def)
  ultimately show ?thesis using c by simp
qed

lemma scan_seen_positive: "0 < th \<Longrightarrow> fst (scan_seen clk th xs cs) = []"
proof (induction xs arbitrary: clk cs)
  case Nil
  then show ?case by simp
next
  case (Cons p rest)
  obtain q t where p: "p = (q, t)" by (cases p)
  have "fst (scan_seen (\<lambda>i. clk (Suc i)) th rest (snd (get_c cs (cache_key q) (clk 0)))) = []"
    using Cons.IH [OF Cons.prems] .
  then show ?case using Cons.prems p by (simp add: case_prod_beta Let_def)
qed

text \<open>
  C9 fails on the code: \<open>find_similar_queries\<close> compares the placeholder \<open>0.0\<close>, not
  the similarity of the texts, with the threshold, so for every positive threshold it
  returns the empty list, whatever was seen: after the query \<open>fever headache\<close> was
  seen, whose similarity to itself is 1, the result for the threshold 0.9 is empty.
\<close>

theorem find_similar_queries_placeholder:
  "0 < threshold \<Longrightarrow> fst (find_similar_queries d symptoms threshold clk) = []"
  by (simp add: find_similar_queries_def case_prod_beta scan_seen_positive)

lemma similarity_same:
  assumes "split (lower t) \<noteq> []"
  shows "calculate_text_similarity t t = 1"
proof -
  have "set (split (lower t)) \<noteq> {}" using assms by simp
  moreover from this have "card (set (split (lower t))) \<noteq> 0" by simp
  ultimately show ?thesis by (simp add: calculate_text_similarity_def Let_def)
qed

lemma split_fever: "split (lower ''fever headache'') = [''fever'', ''headache'']"
  by (simp add: split_def lower_def lower_char_def is_space_def)

theorem find_similar_queries_placeholder_witness:
  "(0 :: real) < 9 / 10
   \<and> fever_content ''symptoms'' = Some (PStr ''fever headache'')
   \<and> get_or_create_query_id fresh_dedup fever_content 0 0 0 0 0 = ((fever_id, True), seen_dedup)
   \<and> calculate_text_similarity ''fever headache'' ''fever headache'' = 1
   \<and> fst (find_similar_queries seen_dedup ''fever headache'' (9 / 10) (\<lambda>i. 1)) = []"
proof -
  have p: "(0 :: real) < 9 / 10" by simp
  have s: "calculate_text_similarity ''fever headache'' ''fever headache'' = 1"
    by (rule similarity_same) (simp add: split_fever)
  have c: "fever_content ''symptoms'' = Some (PStr ''fever headache'')"
    by (simp add: fever_content_def)
  show ?thesis
    using find_similar_queries_placeholder [OF p, of seen_dedup "''fever headache''" "\<lambda>i. 1"]
      first_call s c
    by simp
qed

section \<open>Calls that overlap, calls in sequence\<close>






section \<open>Fingerprints\<close>

lemmas json_defs = content_string_def normalized_def dict_get_def json_dumps_def sorted_items_def
  json_str_def json_escape_char_def strip_def lower_def lower_char_def is_space_def
  dec_int_def dec_nat.simps digit_char_def char_of_def bit_Suc_0_iff

lemma content_string_upper:
  "content_string upper_content
   = ''{\"age\": 30, \"gender\": null, \"language\": \"English\", \"symptoms\": \"fever, headache\"}''"
  by (simp add: upper_content_def json_defs)

lemma content_string_lower:
  "content_string lower_content
   = ''{\"age\": 30, \"gender\": null, \"language\": \"english\", \"symptoms\": \"fever, headache\"}''"
  by (simp add: lower_content_def json_defs)

lemma count_from_length: "count_from n xs = n + length xs"
  by (induction xs arbitrary: n) auto

lemma length_count_from: "length xs = count_from 0 xs"
  by (simp add: count_from_length)

lemma replicate_numeral: "replicate (numeral v) x = x # replicate (numeral v - 1) x"
  by (simp add: numeral_eq_Suc)

lemmas sha_defs = sha256_hexdigest_def pad_def length_count_from replicate_numeral be_bytes8_def
  compress_def K256_def H256_def round256_def next_vars_def bsig0_def bsig1_def ssig0_def
  ssig1_def choice32_def majority32_def rotr_def add32_def not32_def hex32_def digit_char_def
  encode_def encode_char_def

text \<open>
  The model of \<open>hashlib.sha256\<close> on the test vector \<open>abc\<close> of the standard.
\<close>

lemma sha256_abc:
  "sha256_hexdigest (encode ''abc'')
   = ''ba7816bf8f01cfea414140de5dae2223b00361a396177a9cb410ff61f20015ad''"
  by (simp add: sha_defs)

lemma query_id_upper:
  "generate_query_id upper_content
   = ''5ffeb5f8f7ec9eb4961269246d401067c1b9354c977a04b0509231d8049f2f8a''"
  unfolding generate_query_id_def content_string_upper by (simp add: sha_defs)

lemma query_id_lower:
  "generate_query_id lower_content
   = ''b507de313d48e4f5b2e08cef2dc7a1cc2abc074d97fb4c89b6a583d836f9842f''"
  unfolding generate_query_id_def content_string_lower by (simp add: sha_defs)

lemma content_string_gender_upper:
  "content_string gender_upper_content
   = ''{\"age\": null, \"gender\": \"M\", \"language\": \"english\", \"symptoms\": \"fever\"}''"
  by (simp add: gender_upper_content_def json_defs)

lemma content_string_gender_lower:
  "content_string gender_lower_content
   = ''{\"age\": null, \"gender\": \"m\", \"language\": \"english\", \"symptoms\": \"fever\"}''"
  by (simp add: gender_lower_content_def json_defs)

lemma query_id_gender_upper:
  "generate_query_id gender_upper_content
   = ''6f90c62b358c32e654ac7cc4f5d1f0e21e1c847079740be43833778bfd571a3b''"
  unfolding generate_query_id_def content_string_gender_upper by (simp add: sha_defs)

lemma query_id_gender_lower:
  "generate_query_id gender_lower_content
   = ''55fa0d643a06d21932bbf464f6da54ba01a8bbfef1e6e066927f4cc8de212f24''"
  unfolding generate_query_id_def content_string_gender_lower by (simp add: sha_defs)

text \<open>
  C2 as stated fails on its own example. The contents
  \<open>{"symptoms": "Fever, Headache", "age": 30, "language": "English"}\<close> and
  \<open>{"symptoms": "fever, headache", "age": 30, "language": "english"}\<close> get different
  fingerprints, and so do \<open>{"symptoms": "fever", "gender": "M"}\<close> and
  \<open>{"symptoms": "fever", "gender": "m"}\<close>: \<open>generate_query_id\<close> lower-cases and trims
  \<open>symptoms\<close> only, and \<open>language\<close> and \<open>gender\<close> go into the hashed text as they are
  given.
\<close>

theorem language_case_counterexample:
  "generate_query_id upper_content \<noteq> generate_query_id lower_content
   \<and> generate_query_id gender_upper_content \<noteq> generate_query_id gender_lower_content"
  unfolding query_id_upper query_id_lower query_id_gender_upper query_id_gender_lower by simp

lemma lower_char_idem: "lower_char (lower_char c) = lower_char c"
  by (auto simp: lower_char_def Let_def)

lemma lower_idem: "lower (lower s) = lower s"
  by (simp add: lower_def lower_char_idem)

lemma is_space_lower_char: "is_space (lower_char c) = is_space c"
  by (auto simp: lower_char_def is_space_def Let_def)

lemma lower_append: "lower (xs @ ys) = lower xs @ lower ys"
  by (simp add: lower_def)

lemma lower_spaces: "\<forall>x \<in> set w. is_space x \<Longrightarrow> \<forall>x \<in> set (lower w). is_space x"
  by (simp add: lower_def is_space_lower_char)

lemma strip_padding:
  assumes "\<forall>x \<in> set w1. is_space x" and "\<forall>x \<in> set w2. is_space x"
  shows "strip (w1 @ s @ w2) = strip s"
proof -
  have l: "dropWhile is_space (w1 @ s @ w2) = dropWhile is_space (s @ w2)"
    using assms(1) by (simp add: dropWhile_append2)
  show ?thesis
  proof (cases "\<forall>x \<in> set s. is_space x")
    case True
    then have e: "dropWhile is_space (s @ w2) = []" "dropWhile is_space s = []"
      using assms(2) by (auto simp: dropWhile_eq_Nil_conv)
    show ?thesis unfolding strip_def l e by simp
  next
    case False
    then obtain x where "x \<in> set s" and "\<not> is_space x" by blast
    then have e: "dropWhile is_space (s @ w2) = dropWhile is_space s @ w2"
      by (simp add: dropWhile_append1)
    have r: "dropWhile is_space (rev w2 @ rev (dropWhile is_space s))
                   = dropWhile is_space (rev (dropWhile is_space s))"
      using assms(2) by (intro dropWhile_append2) auto
    show ?thesis unfolding strip_def l e rev_append r by simp
  qed
qed

lemma normal_symptoms_padding:
  assumes "\<forall>x \<in> set w1. is_space x" and "\<forall>x \<in> set w2. is_space x"
  shows "strip (lower (w1 @ s @ w2)) = strip (lower (lower s))"
  using strip_padding [OF lower_spaces [OF assms(1)] lower_spaces [OF assms(2)], of "lower s"]
  by (simp add: lower_append lower_idem)

lemma same_normalized:
  assumes "strip (lower (py_str (dict_get c1 ''symptoms'' (PStr ''''))))
           = strip (lower (py_str (dict_get c2 ''symptoms'' (PStr ''''))))"
    and "dict_get c1 ''age'' PNone = dict_get c2 ''age'' PNone"
    and "dict_get c1 ''gender'' PNone = dict_get c2 ''gender'' PNone"
    and "dict_get c1 ''language'' (PStr ''english'') = dict_get c2 ''language'' (PStr ''english'')"
  shows "generate_query_id c1 = generate_query_id c2"
  using assms by (simp add: generate_query_id_def content_string_def normalized_def)

text \<open>
  C2 (as the code has it). Two contents that agree on every key other than the four
  fields get the same fingerprint when their \<open>symptoms\<close>, converted to text, lower-cased
  and trimmed, agree (a missing one counts as the empty text), their \<open>age\<close> and their
  \<open>gender\<close> agree as given (a missing one counts as None) and their \<open>language\<close> agrees
  as given (a missing one counts as \<open>english\<close>). So the case of \<open>symptoms\<close> and white
  space around it do not matter, and an absent field is the same as its default. The
  dictionary has no key order in the model, and the fingerprint is a function of the
  content.
\<close>

theorem fingerprint_of_normalized:
  "(a |` (- query_fields) = b |` (- query_fields)
    \<and> strip (lower (py_str (dict_get a ''symptoms'' (PStr ''''))))
      = strip (lower (py_str (dict_get b ''symptoms'' (PStr ''''))))
    \<and> dict_get a ''age'' PNone = dict_get b ''age'' PNone
    \<and> dict_get a ''gender'' PNone = dict_get b ''gender'' PNone
    \<and> dict_get a ''language'' (PStr ''english'') = dict_get b ''language'' (PStr ''english'')
    \<longrightarrow> generate_query_id a = generate_query_id b)
   \<and> ((\<forall>x \<in> set l. is_space x) \<and> (\<forall>x \<in> set r. is_space x)
    \<longrightarrow> generate_query_id (c(''symptoms'' \<mapsto> PStr (l @ s @ r)))
        = generate_query_id (c(''symptoms'' \<mapsto> PStr (lower s))))
   \<and> generate_query_id (c(''symptoms'' := None)) = generate_query_id (c(''symptoms'' \<mapsto> PStr ''''))
   \<and> generate_query_id (c(''age'' := None)) = generate_query_id (c(''age'' \<mapsto> PNone))
   \<and> generate_query_id (c(''gender'' := None)) = generate_query_id (c(''gender'' \<mapsto> PNone))
   \<and> generate_query_id (c(''language'' := None))
       = generate_query_id (c(''language'' \<mapsto> PStr ''english''))"
proof -
  have pad: "(\<forall>x \<in> set l. is_space x) \<and> (\<forall>x \<in> set r. is_space x)
    \<longrightarrow> generate_query_id (c(''symptoms'' \<mapsto> PStr (l @ s @ r)))
        = generate_query_id (c(''symptoms'' \<mapsto> PStr (lower s)))"
  proof
    assume "(\<forall>x \<in> set l. is_space x) \<and> (\<forall>x \<in> set r. is_space x)"
    then have "strip (lower (l @ s @ r)) = strip (lower (lower s))"
      using normal_symptoms_padding by blast
    then show "generate_query_id (c(''symptoms'' \<mapsto> PStr (l @ s @ r)))
        = generate_query_id (c(''symptoms'' \<mapsto> PStr (lower s)))"
      by (intro same_normalized) (simp_all add: dict_get_def)
  qed
  have missing: "generate_query_id (c(''symptoms'' := None)) = generate_query_id (c(''symptoms'' \<mapsto> PStr ''''))"
    "generate_query_id (c(''age'' := None)) = generate_query_id (c(''age'' \<mapsto> PNone))"
    "generate_query_id (c(''gender'' := None)) = generate_query_id (c(''gender'' \<mapsto> PNone))"
    "generate_query_id (c(''language'' := None))
       = generate_query_id (c(''language'' \<mapsto> PStr ''english''))"
    by (intro same_normalized; simp add: dict_get_def)+
  show ?thesis
    using same_normalized [of a b] pad missing by blast
qed

lemma rest_of_padded:
  "padded_content |` (- query_fields) = lower_content |` (- query_fields)"
  "mixed_content |` (- query_fields) = lower_content |` (- query_fields)"
  by (rule ext, simp add: padded_content_def mixed_content_def lower_content_def
      query_fields_def restrict_map_def)+

theorem fingerprint_of_normalized_witness:
  "padded_content |` (- query_fields) = lower_content |` (- query_fields)
   \<and> strip (lower (py_str (dict_get padded_content ''symptoms'' (PStr ''''))))
      = strip (lower (py_str (dict_get lower_content ''symptoms'' (PStr ''''))))
   \<and> dict_get padded_content ''age'' PNone = dict_get lower_content ''age'' PNone
   \<and> dict_get padded_content ''gender'' PNone = dict_get lower_content ''gender'' PNone
   \<and> dict_get padded_content ''language'' (PStr ''english'')
       = dict_get lower_content ''language'' (PStr ''english'')
   \<and> generate_query_id padded_content = generate_query_id lower_content
   \<and> generate_query_id mixed_content = generate_query_id lower_content
   \<and> generate_query_id lower_content
       = ''b507de313d48e4f5b2e08cef2dc7a1cc2abc074d97fb4c89b6a583d836f9842f''
   \<and> is_space (CHR '' '') \<and> is_space (CHR 0x0A)
   \<and> generate_query_id (lower_content(''symptoms'' \<mapsto> PStr ('' '' @ ''FEVER'' @ [CHR 0x0A])))
       = generate_query_id (lower_content(''symptoms'' \<mapsto> PStr (lower ''FEVER'')))
   \<and> lower ''FEVER'' = ''fever''"
proof -
  have h: "strip (lower (py_str (dict_get padded_content ''symptoms'' (PStr ''''))))
      = strip (lower (py_str (dict_get lower_content ''symptoms'' (PStr ''''))))"
    "dict_get padded_content ''age'' PNone = dict_get lower_content ''age'' PNone"
    "dict_get padded_content ''gender'' PNone = dict_get lower_content ''gender'' PNone"
    "dict_get padded_content ''language'' (PStr ''english'')
       = dict_get lower_content ''language'' (PStr ''english'')"
    by (simp_all add: padded_content_def lower_content_def dict_get_def strip_def lower_def
        lower_char_def is_space_def char_of_def bit_Suc_0_iff)
  have g: "strip (lower (py_str (dict_get mixed_content ''symptoms'' (PStr ''''))))
      = strip (lower (py_str (dict_get lower_content ''symptoms'' (PStr ''''))))"
    "dict_get mixed_content ''age'' PNone = dict_get lower_content ''age'' PNone"
    "dict_get mixed_content ''gender'' PNone = dict_get lower_content ''gender'' PNone"
    "dict_get mixed_content ''language'' (PStr ''english'')
       = dict_get lower_content ''language'' (PStr ''english'')"
    by (simp_all add: mixed_content_def lower_content_def dict_get_def strip_def lower_def
        lower_char_def is_space_def char_of_def bit_Suc_0_iff)
  have sp: "is_space (CHR '' '')" "is_space (CHR 0x0A)"
    by (simp_all add: is_space_def)
  have lo: "lower ''FEVER'' = ''fever''"
    by (simp add: lower_def lower_char_def char_of_def bit_Suc_0_iff)
  note T = fingerprint_of_normalized [of padded_content lower_content "'' ''" "[CHR 0x0A]"
      lower_content "''FEVER''"]
  note M = fingerprint_of_normalized [of mixed_content lower_content]
  have same: "generate_query_id padded_content = generate_query_id lower_content"
    using T h rest_of_padded(1) by blast
  have mixed: "generate_query_id mixed_content = generate_query_id lower_content"
    using M g rest_of_padded(2) by blast
  have pad: "generate_query_id (lower_content(''symptoms'' \<mapsto> PStr ('' '' @ ''FEVER'' @ [CHR 0x0A])))
       = generate_query_id (lower_content(''symptoms'' \<mapsto> PStr (lower ''FEVER'')))"
    using T sp by simp
  show ?thesis
    using h same mixed pad sp lo rest_of_padded(1) query_id_lower by (intro conjI) simp_all
qed

text \<open>
  Outside the statement above: \<open>generate_query_id\<close> reads the four fields only, so a
  key that is not one of them does not change the fingerprint. The contents
  \<open>{'user_id': ..., 'message': ...}\<close> that \<open>save_chat_message\<close> passes have none of the
  four fields and all get the fingerprint of the empty content.
\<close>

lemma other_keys_not_read:
  "k \<notin> query_fields \<Longrightarrow> generate_query_id (c(k := y)) = generate_query_id c"
  by (auto intro!: same_normalized simp: dict_get_def query_fields_def)

end
